theory Spec2Isabelle
  imports
    Main
    "HOL-Library.AList"
    "HOL-Library.List_Lexorder"
    "HOL-Library.Product_Lexorder"
    "HOL-Library.Multiset"
begin

section \<open>Python values of the catalog engine (python_app/app.py)\<close>

subsection \<open>Strings\<close>

text \<open>
  A Python \<open>str\<close> is a list of code points; here it is a \<^typ>\<open>string\<close>, one
  \<^typ>\<open>char\<close> per code point. A \<^typ>\<open>char\<close> holds the code points below 256 (Latin-1),
  with three exceptions: the source names three code points above 255, and three positions
  that no catalog text uses stand for them. Each of the three has the same character class as
  the code point it stands for (not a digit, not white space, unchanged by \<open>lower\<close>):
  \<^item> \<open>0x96\<close> stands for U+2013 EN DASH,
  \<^item> \<open>0x97\<close> stands for U+2014 EM DASH,
  \<^item> \<open>0xAD\<close> stands for U+2011 NON-BREAKING HYPHEN (in the keys \<open>Wi-Fi AP\<close> and
    \<open>SpeedFusion Throughput (256-bit AES)\<close>).
  Python compares strings by their code points, lexicographically. The order of the
  \<^typ>\<open>char\<close>s is not that order at the three stand-ins, so no string is compared as it
  is: the sort keys are the lists \<open>code_points s\<close> of the code points of the strings, where
  each stand-in has the code point it stands for, above all of Latin-1.
\<close>

definition nbsp :: char where
  "nbsp = CHR 0xA0"

definition en_dash :: char where
  "en_dash = CHR 0x96"

definition em_dash :: char where
  "em_dash = CHR 0x97"

definition nb_hyphen :: char where
  "nb_hyphen = CHR 0xAD"

definition code_point :: "char \<Rightarrow> int" where
  \<comment> \<open>\<open>ord(c)\<close>: 8209, 8211 and 8212 are U+2011, U+2013 and U+2014\<close>
  "code_point c =
     (if c = nb_hyphen then 8209 else if c = en_dash then 8211 else if c = em_dash then 8212
      else of_char c)"

definition code_points :: "string \<Rightarrow> int list" where
  \<comment> \<open>a string as Python compares it\<close>
  "code_points s = map code_point s"

definition ascii_digits :: string where
  "ascii_digits = ''0123456789''"

definition isdecimal :: "char \<Rightarrow> bool" where
  \<comment> \<open>the characters that \<open>int()\<close> and \<open>float()\<close> read as digits\<close>
  "isdecimal c \<longleftrightarrow> c \<in> set ascii_digits"

definition isdigit :: "char \<Rightarrow> bool" where
  \<comment> \<open>\<open>str.isdigit\<close>: the decimal digits and the superscripts two, three and one\<close>
  "isdigit c \<longleftrightarrow> isdecimal c \<or> c \<in> set [CHR 0xB2, CHR 0xB3, CHR 0xB9]"

definition isspace :: "char \<Rightarrow> bool" where
  \<comment> \<open>\<open>str.isspace\<close>, the characters that \<open>str.strip()\<close> removes\<close>
  "isspace c \<longleftrightarrow> c \<in> set [CHR 0x09, CHR 0x0A, CHR 0x0B, CHR 0x0C, CHR 0x0D,
                          CHR 0x1C, CHR 0x1D, CHR 0x1E, CHR 0x1F, CHR 0x20, CHR 0x85, CHR 0xA0]"

definition upper_letters :: string where
  "upper_letters = ''ABCDEFGHIJKLMNOPQRSTUVWXYZ'' @
     [CHR 0xC0, CHR 0xC1, CHR 0xC2, CHR 0xC3, CHR 0xC4, CHR 0xC5, CHR 0xC6, CHR 0xC7,
      CHR 0xC8, CHR 0xC9, CHR 0xCA, CHR 0xCB, CHR 0xCC, CHR 0xCD, CHR 0xCE, CHR 0xCF,
      CHR 0xD0, CHR 0xD1, CHR 0xD2, CHR 0xD3, CHR 0xD4, CHR 0xD5, CHR 0xD6,
      CHR 0xD8, CHR 0xD9, CHR 0xDA, CHR 0xDB, CHR 0xDC, CHR 0xDD, CHR 0xDE]"

definition lower_letters :: string where
  "lower_letters = ''abcdefghijklmnopqrstuvwxyz'' @
     [CHR 0xE0, CHR 0xE1, CHR 0xE2, CHR 0xE3, CHR 0xE4, CHR 0xE5, CHR 0xE6, CHR 0xE7,
      CHR 0xE8, CHR 0xE9, CHR 0xEA, CHR 0xEB, CHR 0xEC, CHR 0xED, CHR 0xEE, CHR 0xEF,
      CHR 0xF0, CHR 0xF1, CHR 0xF2, CHR 0xF3, CHR 0xF4, CHR 0xF5, CHR 0xF6,
      CHR 0xF8, CHR 0xF9, CHR 0xFA, CHR 0xFB, CHR 0xFC, CHR 0xFD, CHR 0xFE]"

definition lower_chr :: "char \<Rightarrow> char" where
  "lower_chr c = (case map_of (zip upper_letters lower_letters) c of Some d \<Rightarrow> d | None \<Rightarrow> c)"

definition lower :: "string \<Rightarrow> string" where
  \<comment> \<open>\<open>str.lower()\<close>\<close>
  "lower s = map lower_chr s"

definition strip :: "string \<Rightarrow> string" where
  \<comment> \<open>\<open>str.strip()\<close>\<close>
  "strip s = rev (dropWhile isspace (rev (dropWhile isspace s)))"

definition startswith :: "string \<Rightarrow> string \<Rightarrow> bool" where
  "startswith s p \<longleftrightarrow> take (length p) s = p"

fun contains :: "string \<Rightarrow> string \<Rightarrow> bool" where
  \<comment> \<open>\<open>contains s p\<close> is Python's \<open>p in s\<close>\<close>
  "contains [] p = (p = [])"
| "contains (c # s) p = (startswith (c # s) p \<or> contains s p)"

definition replace_chr :: "char \<Rightarrow> char \<Rightarrow> string \<Rightarrow> string" where
  \<comment> \<open>\<open>s.replace(a, b)\<close> for one-character \<open>a\<close> and \<open>b\<close>\<close>
  "replace_chr a b s = map (\<lambda>c. if c = a then b else c) s"

fun replace_or :: "string \<Rightarrow> string" where
  \<comment> \<open>\<open>s.replace('or', '/')\<close>: the occurrences from the left, not overlapping\<close>
  "replace_or [] = []"
| "replace_or [c] = [c]"
| "replace_or (c # d # s) =
     (if c = CHR ''o'' \<and> d = CHR ''r'' then CHR ''/'' # replace_or s else c # replace_or (d # s))"

fun split_chr :: "char \<Rightarrow> string \<Rightarrow> string list" where
  \<comment> \<open>\<open>s.split(sep)\<close> for a one-character separator: one more piece than separators\<close>
  "split_chr sep [] = [[]]"
| "split_chr sep (c # s) =
     (if c = sep then [] # split_chr sep s
      else (case split_chr sep s of p # ps \<Rightarrow> (c # p) # ps | [] \<Rightarrow> [[c]]))"

definition digit_chr :: "int \<Rightarrow> char" where
  "digit_chr d = ascii_digits ! nat d"

function digits_of :: "int \<Rightarrow> string" where
  \<comment> \<open>the decimal digits of an integer that is not negative\<close>
  "digits_of n =
     (if n < 10 then [digit_chr n] else digits_of (n div 10) @ [digit_chr (n mod 10)])"
  by pat_completeness auto
termination
  by (relation "measure nat") auto

definition str_int :: "int \<Rightarrow> string" where
  \<comment> \<open>\<open>str(i)\<close> of an integer\<close>
  "str_int i = (if i < 0 then CHR ''-'' # digits_of (- i) else digits_of i)"

definition digit_val :: "char \<Rightarrow> int" where
  "digit_val c =
     (case map_of (zip ascii_digits [0, 1, 2, 3, 4, 5, 6, 7, 8, 9]) c of Some d \<Rightarrow> d | None \<Rightarrow> 0)"

definition decimal_value :: "string \<Rightarrow> int" where
  \<comment> \<open>the number that a string of decimal digits denotes\<close>
  "decimal_value s = foldl (\<lambda>n c. 10 * n + digit_val c) 0 s"

subsection \<open>Errors, and the conversions \<open>int()\<close> and \<open>str()\<close>\<close>

datatype py_error = ValueError | TypeError | OverflowError

definition int_max_str_digits :: nat where
  \<comment> \<open>CPython's default limit on the digits of a string given to \<open>int()\<close>\<close>
  "int_max_str_digits = 4300"

definition int_of_digits :: "string \<Rightarrow> py_error + int" where
  \<comment> \<open>\<open>int(num)\<close> for a string of \<open>isdigit\<close> characters: the superscripts are no
      decimal digits\<close>
  "int_of_digits ds =
     (if ds = [] \<or> \<not> list_all isdecimal ds \<or> int_max_str_digits < length ds
      then Inl ValueError else Inr (decimal_value ds))"

definition is_int_space :: "char \<Rightarrow> bool" where
  \<comment> \<open>the white space that \<open>int()\<close> skips around a literal\<close>
  "is_int_space c \<longleftrightarrow> c \<in> set [CHR 0x09, CHR 0x0A, CHR 0x0B, CHR 0x0C, CHR 0x0D,
                               CHR 0x20, CHR 0x85, CHR 0xA0]"

fun underscores_ok :: "string \<Rightarrow> bool" where
  \<comment> \<open>digits, with single underscores between digits only\<close>
  "underscores_ok [] = False"
| "underscores_ok [c] = isdecimal c"
| "underscores_ok (c # d # s) =
     (isdecimal c \<and> (if d = CHR ''_'' then underscores_ok s else underscores_ok (d # s)))"

definition int_of_str :: "string \<Rightarrow> py_error + int" where
  \<comment> \<open>\<open>int(s)\<close> of a string: white space, a sign, decimal digits\<close>
  "int_of_str s =
     (let t = rev (dropWhile is_int_space (rev (dropWhile is_int_space s)));
          neg = startswith t ''-'';
          body = (if startswith t ''-'' \<or> startswith t ''+'' then tl t else t);
          ds = filter (\<lambda>c. c \<noteq> CHR ''_'') body
      in if \<not> underscores_ok body \<or> int_max_str_digits < length ds then Inl ValueError
         else Inr (if neg then - decimal_value ds else decimal_value ds))"

text \<open>
  \<open>_build_mock_price_db\<close> gives every product one price per client category
  (\<open>CLIENT_CATEGORIES\<close>: Essential, Business, Enterprise): a dict of exactly these three
  keys, here a record.
\<close>

record price_map =
  essential :: int
  business :: int
  enterprise :: int

text \<open>
  The values of a product record: the raw catalog values are strings (spec, section 6), the
  derived fields are integers and the price map. The integers are results of \<open>int()\<close> and
  \<open>round()\<close>, short enough for \<open>str()\<close> to print them.
\<close>

datatype pyval = VStr string | VInt int | VPrices price_map

fun py_str :: "pyval \<Rightarrow> string" where
  \<comment> \<open>\<open>str(v)\<close>\<close>
  "py_str (VStr s) = s"
| "py_str (VInt i) = str_int i"
| "py_str (VPrices p) =
     ''{'' @ [CHR 0x27] @ ''Essential'' @ [CHR 0x27] @ '': '' @ str_int (essential p) @
     '', '' @ [CHR 0x27] @ ''Business'' @ [CHR 0x27] @ '': '' @ str_int (business p) @
     '', '' @ [CHR 0x27] @ ''Enterprise'' @ [CHR 0x27] @ '': '' @ str_int (enterprise p) @ ''}''"

fun py_int :: "pyval \<Rightarrow> py_error + int" where
  \<comment> \<open>\<open>int(v)\<close>\<close>
  "py_int (VStr s) = int_of_str s"
| "py_int (VInt i) = Inr i"
| "py_int (VPrices p) = Inl TypeError"

fun truthy :: "pyval \<Rightarrow> bool" where
  \<comment> \<open>what \<open>if v:\<close> tests; a price map has three keys\<close>
  "truthy (VStr s) = (s \<noteq> [])"
| "truthy (VInt i) = (i \<noteq> 0)"
| "truthy (VPrices p) = True"

subsection \<open>Dictionaries\<close>

text \<open>
  A \<open>dict\<close> is an association list in insertion order with distinct keys:
  \<open>d[k] = v\<close> is \<^const>\<open>AList.update\<close> (an existing key keeps its place, a new one goes to
  the end), \<open>d.pop(k, None)\<close> is \<^const>\<open>AList.delete\<close>, \<open>k in d\<close> and \<open>d.get(k)\<close>
  read \<^const>\<open>map_of\<close>.
\<close>

type_synonym pdict = "(string \<times> pyval) list"
type_synonym product = "string \<times> pdict"
type_synonym filters = "(string \<times> string list) list"

definition dict_get :: "('k \<times> 'v) list \<Rightarrow> 'k \<Rightarrow> 'v \<Rightarrow> 'v" where
  \<comment> \<open>\<open>d.get(k, default)\<close>\<close>
  "dict_get d k dflt = (case map_of d k of Some v \<Rightarrow> v | None \<Rightarrow> dflt)"

definition has_key :: "('k \<times> 'v) list \<Rightarrow> 'k \<Rightarrow> bool" where
  \<comment> \<open>\<open>k in d\<close>\<close>
  "has_key d k \<longleftrightarrow> map_of d k \<noteq> None"

section \<open>Floating point: \<open>float()\<close>, \<open>*\<close> and \<open>round()\<close>\<close>

text \<open>
  \<open>_parse_mbps\<close> computes \<open>int(round(float(num) * mult))\<close> on IEEE binary64 numbers. Only
  numbers that are not negative occur. A finite one is \<open>Finite m e\<close>, of value
  \<open>m * 2 ^ e\<close> with \<open>0 \<le> m\<close>; \<open>round_binary64 a b\<close> is the binary64 number nearest to
  the fraction \<open>a / b\<close>, ties to the even significand, and \<open>Infinity\<close> from \<open>2 ^ 1024\<close>
  on.
\<close>

datatype pyfloat = Finite int int | Infinity

function bit_length :: "int \<Rightarrow> int" where
  \<comment> \<open>the number of binary digits of a positive integer\<close>
  "bit_length n = (if n \<le> 0 then 0 else 1 + bit_length (n div 2))"
  by pat_completeness auto
termination
  by (relation "measure nat") auto

definition rne_div :: "int \<Rightarrow> int \<Rightarrow> int" where
  \<comment> \<open>\<open>a / b\<close> rounded to the nearest integer, half to even, for \<open>0 \<le> a\<close> and \<open>0 < b\<close>\<close>
  "rne_div a b =
     (let q = a div b; r = a mod b
      in if 2 * r < b then q else if b < 2 * r then q + 1 else if even q then q else q + 1)"

definition floor_log2 :: "int \<Rightarrow> int \<Rightarrow> int" where
  \<comment> \<open>the integer \<open>k\<close> with \<open>2 ^ k \<le> a / b < 2 ^ (k + 1)\<close>, for positive \<open>a\<close> and \<open>b\<close>\<close>
  "floor_log2 a b =
     (let k = bit_length a - bit_length b
      in if (if 0 \<le> k then b * 2 ^ nat k \<le> a else b \<le> a * 2 ^ nat (- k)) then k else k - 1)"

definition round_binary64 :: "int \<Rightarrow> int \<Rightarrow> pyfloat" where
  "round_binary64 a b =
     (if a = 0 then Finite 0 0
      else let e = max (floor_log2 a b) (- 1022) - 52;
               m = (if 0 \<le> e then rne_div a (b * 2 ^ nat e) else rne_div (a * 2 ^ nat (- e)) b)
           in if 971 \<le> e \<and> 2 ^ 53 \<le> m * 2 ^ nat (e - 971) then Infinity else Finite m e)"

definition py_float :: "string \<Rightarrow> py_error + pyfloat" where
  \<comment> \<open>\<open>float(num)\<close> for a string of \<open>isdigit\<close> characters and dots: decimal digits with at
      most one dot and at least one digit, or \<open>ValueError\<close>\<close>
  "py_float num =
     (let ip = takeWhile (\<lambda>c. c \<noteq> CHR ''.'') num;
          fp = drop 1 (dropWhile (\<lambda>c. c \<noteq> CHR ''.'') num)
      in if ip @ fp = [] \<or> \<not> list_all isdecimal (ip @ fp) then Inl ValueError
         else Inr (round_binary64 (decimal_value (ip @ fp)) (10 ^ length fp)))"

fun float_times :: "pyfloat \<Rightarrow> int \<Rightarrow> pyfloat" where
  \<comment> \<open>\<open>val * mult\<close> for a positive integer \<open>mult\<close> that binary64 holds exactly\<close>
  "float_times (Finite m e) k =
     (if 0 \<le> e then round_binary64 (m * k * 2 ^ nat e) 1 else round_binary64 (m * k) (2 ^ nat (- e)))"
| "float_times Infinity k = Infinity"

fun py_round :: "pyfloat \<Rightarrow> py_error + int" where
  \<comment> \<open>\<open>int(round(x))\<close>: half to even; infinity raises\<close>
  "py_round (Finite m e) = Inr (if 0 \<le> e then m * 2 ^ nat e else rne_div m (2 ^ nat (- e)))"
| "py_round Infinity = Inl OverflowError"

section \<open>The normalizer: \<open>augment_product_data\<close> and its parsers\<close>

definition strip_nbsp :: "pyval \<Rightarrow> string" where
  \<comment> \<open>\<open>_strip_nbsp\<close>: \<open>str(s).replace("\xa0", " ").strip()\<close>\<close>
  "strip_nbsp s = strip (replace_chr nbsp CHR '' '' (py_str s))"

fun int_prefix_scan :: "string \<Rightarrow> string \<Rightarrow> string" where
  \<comment> \<open>the loop of \<open>_parse_int_prefix\<close>: \<open>num\<close> so far, the characters left\<close>
  "int_prefix_scan num [] = num"
| "int_prefix_scan num (ch # rest) =
     (if isdigit ch then int_prefix_scan (num @ [ch]) rest
      else if num \<noteq> [] then num
      else int_prefix_scan num rest)"

definition parse_int_prefix :: "string \<Rightarrow> int" where
  \<comment> \<open>\<open>_parse_int_prefix\<close>, on a string: every \<open>int\<close> error gives 0\<close>
  "parse_int_prefix value =
     (let num = int_prefix_scan [] value
      in if num = [] then 0 else (case int_of_digits num of Inr n \<Rightarrow> n | Inl e \<Rightarrow> 0))"

definition yes_no :: "pyval \<Rightarrow> pyval" where
  \<comment> \<open>\<open>_yes_no\<close>\<close>
  "yes_no val =
     (let s = lower (strip (py_str val))
      in if startswith s ''y'' then VStr ''Yes''
         else if startswith s ''n'' then VStr ''No''
         else val)"

fun mbps_scan :: "string \<Rightarrow> bool \<Rightarrow> string \<Rightarrow> string" where
  \<comment> \<open>the loop of \<open>_parse_mbps\<close>: \<open>num\<close> and \<open>dot_seen\<close> so far, the characters left\<close>
  "mbps_scan num dot_seen [] = num"
| "mbps_scan num dot_seen (ch # rest) =
     (if isdigit ch then mbps_scan (num @ [ch]) dot_seen rest
      else if ch = CHR ''.'' \<and> \<not> dot_seen then mbps_scan (num @ [ch]) True rest
      else if num \<noteq> [] then num
      else mbps_scan num dot_seen rest)"

definition gigabit_marker :: "string \<Rightarrow> bool" where
  \<comment> \<open>the test on the lower-cased text that sets \<open>mult = 1000\<close>\<close>
  "gigabit_marker low \<longleftrightarrow>
     contains low ''gbps'' \<or> contains low ''gbit'' \<or> contains low '' 2.5 g'' \<or> contains low ''g ''"

definition parse_mbps :: "pyval \<Rightarrow> py_error + int" where
  \<comment> \<open>\<open>_parse_mbps\<close>: \<open>float\<close>'s \<open>ValueError\<close> is caught, \<open>round\<close>'s \<open>OverflowError\<close> is not\<close>
  "parse_mbps s0 =
     (if \<not> truthy s0 then Inr 0
      else let s = strip_nbsp s0;
               num = mbps_scan [] False s;
               val = (if num = [] then Finite 0 0
                      else (case py_float num of Inr x \<Rightarrow> x | Inl e \<Rightarrow> Finite 0 0));
               mult = (if gigabit_marker (lower s) then 1000 else 1)
           in py_round (float_times val mult))"

fun users_nums :: "string list \<Rightarrow> py_error + int list" where
  \<comment> \<open>the loop over \<open>parts\<close> in \<open>_parse_users_range\<close>; \<open>int(digits)\<close> may raise\<close>
  "users_nums [] = Inr []"
| "users_nums (part # parts) =
     (let digits = filter isdigit part
      in if digits = [] then users_nums parts
         else (case int_of_digits digits of
                 Inl e \<Rightarrow> Inl e
               | Inr n \<Rightarrow> (case users_nums parts of Inl e \<Rightarrow> Inl e | Inr ns \<Rightarrow> Inr (n # ns))))"

definition parse_users_range :: "pyval \<Rightarrow> py_error + int \<times> int" where
  \<comment> \<open>\<open>_parse_users_range\<close>\<close>
  "parse_users_range s0 =
     (if \<not> truthy s0 then Inr (0, 0)
      else let s = replace_chr em_dash CHR ''-'' (replace_chr en_dash CHR ''-'' (strip_nbsp s0))
           in case users_nums (split_chr CHR ''-'' s) of
                Inl e \<Rightarrow> Inl e
              | Inr [] \<Rightarrow>
                  (let digits = filter isdigit s
                   in if digits = [] then Inr (0, 0)
                      else (case int_of_digits digits of Inl e \<Rightarrow> Inl e | Inr n \<Rightarrow> Inr (n, n)))
              | Inr [n] \<Rightarrow> Inr (n, n)
              | Inr (n0 # n1 # ns) \<Rightarrow> Inr (min n0 n1, max n0 n1))"

definition py_max :: "int list \<Rightarrow> py_error + int" where
  \<comment> \<open>\<open>max(xs)\<close>: the empty list raises\<close>
  "py_max xs = (case xs of [] \<Rightarrow> Inl ValueError | x # ys \<Rightarrow> Inr (fold max ys x))"

definition max_port_count :: "pyval \<Rightarrow> py_error + int" where
  \<comment> \<open>\<open>max([_parse_int_prefix(tok) for tok in _strip_nbsp(v).replace('or', '/').split('/')])\<close>\<close>
  "max_port_count v = py_max (map parse_int_prefix (split_chr CHR ''/'' (replace_or (strip_nbsp v))))"

text \<open>
  \<open>PRICE_DB\<close> is built once from the catalog \<open>RAW\<close> (category, then product name, then
  the raw record); \<open>augment_product_data\<close> reads it, here as its first parameter.
\<close>

type_synonym raw_catalog = "(string \<times> (string \<times> pdict) list) list"
type_synonym price_db = "(string \<times> (string \<times> price_map) list) list"

definition mock_prices :: "nat \<Rightarrow> nat \<Rightarrow> price_map" where
  "mock_prices cat_idx prod_idx =
     (let base = 800 + int cat_idx * 220 + int prod_idx * 25
      in \<lparr>essential = base, business = base + 190, enterprise = base + 340\<rparr>)"

definition build_mock_price_db :: "raw_catalog \<Rightarrow> price_db" where
  \<comment> \<open>\<open>_build_mock_price_db\<close>: the products of a category are numbered in name order\<close>
  "build_mock_price_db raw_data =
     map (\<lambda>(cat_idx, category, products).
            (category,
             map (\<lambda>(prod_idx, product_name, data). (product_name, mock_prices cat_idx prod_idx))
                 (enumerate 0 (sort_key (\<lambda>x. code_points (fst x)) products))))
         (enumerate 0 raw_data)"

definition PRICE_MATRIX_KEY :: string where
  "PRICE_MATRIX_KEY = ''_client_price_matrix''"

definition WIFI_AP :: string where
  "WIFI_AP = ''Wi'' @ [nb_hyphen] @ ''Fi AP''"

definition SF_AES :: string where
  "SF_AES = ''SpeedFusion Throughput (256'' @ [nb_hyphen] @ ''bit AES)''"

definition SF_VPN_AES :: string where
  "SF_VPN_AES = ''SpeedFusion VPN Throughput (256'' @ [nb_hyphen] @ ''bit AES)''"

definition attach_prices :: "price_db \<Rightarrow> string \<Rightarrow> string \<Rightarrow> pdict \<Rightarrow> pdict" where
  \<comment> \<open>\<open>price_map = PRICE_DB.get(category, {}).get(name); if price_map: out[...] = price_map\<close>\<close>
  "attach_prices db category name out =
     (case map_of (dict_get db category []) name of
        None \<Rightarrow> out
      | Some price_map \<Rightarrow> AList.update PRICE_MATRIX_KEY (VPrices price_map) out)"

definition derive_modem_group :: "pdict \<Rightarrow> pdict" where
  "derive_modem_group out =
     (let count = (case map_of out ''Number of Cellular Modems'' of
                     None \<Rightarrow> 0
                   | Some modem_raw \<Rightarrow> parse_int_prefix (py_str modem_raw));
          modem_group = (if count \<le> 0 then ''None'' else if count = 1 then ''Single'' else ''Multi'')
      in AList.update ''Modem Group'' (VStr modem_group) out)"

definition normalize_flag :: "string \<Rightarrow> pdict \<Rightarrow> pdict" where
  \<comment> \<open>\<open>if key in out: out[key] = _yes_no(out[key])\<close>\<close>
  "normalize_flag key out =
     (case map_of out key of None \<Rightarrow> out | Some v \<Rightarrow> AList.update key (yes_no v) out)"

definition infer_5g :: "pdict \<Rightarrow> pdict" where
  \<comment> \<open>the \<open>try\<close> block: nothing in it raises\<close>
  "infer_5g out =
     (let fields_to_scan =
            [py_str (dict_get out ''Number of Cellular Modems'' (VStr [])),
             py_str (dict_get out ''Cellular Modem Category options'' (VStr [])),
             py_str (dict_get out ''short_description'' (VStr []))];
          has_5g = list_ex (\<lambda>s. contains (lower s) ''5g'') fields_to_scan;
          cur_5g = map_of out ''5G support''
      in if has_5g \<and> cur_5g \<noteq> Some (VStr ''Yes'') then AList.update ''5G support'' (VStr ''Yes'') out
         else if \<not> has_5g \<and> (case cur_5g of None \<Rightarrow> True | Some c \<Rightarrow> strip (py_str c) = [])
         then AList.update ''5G support'' (VStr ''No'') out
         else out)"

definition unify_key :: "string \<Rightarrow> string \<Rightarrow> pdict \<Rightarrow> pdict" where
  \<comment> \<open>\<open>if canonical not in out and legacy in out: out[canonical] = out[legacy]\<close>\<close>
  "unify_key canonical legacy out =
     (if has_key out canonical then out
      else (case map_of out legacy of None \<Rightarrow> out | Some v \<Rightarrow> AList.update canonical v out))"

definition derive_mbps :: "string \<Rightarrow> string \<Rightarrow> pdict \<Rightarrow> py_error + pdict" where
  \<comment> \<open>\<open>if src in out: out[dst] = _parse_mbps(out[src])\<close>\<close>
  "derive_mbps src dst out =
     (case map_of out src of
        None \<Rightarrow> Inr out
      | Some v \<Rightarrow> (case parse_mbps v of
                    Inl e \<Rightarrow> Inl e
                  | Inr n \<Rightarrow> Inr (AList.update dst (VInt n) out)))"

definition derive_users :: "pdict \<Rightarrow> py_error + pdict" where
  "derive_users out =
     (case map_of out ''Number of Recommended Users'' of
        None \<Rightarrow> Inr out
      | Some v \<Rightarrow> (case parse_users_range v of
                    Inl e \<Rightarrow> Inl e
                  | Inr (lo, hi) \<Rightarrow>
                      Inr (AList.update ''Users Max'' (VInt hi)
                            (AList.update ''Users Min'' (VInt lo) out))))"

definition derive_ports :: "string \<Rightarrow> string \<Rightarrow> pdict \<Rightarrow> py_error + pdict" where
  "derive_ports src dst out =
     (case map_of out src of
        None \<Rightarrow> Inr out
      | Some v \<Rightarrow> (case max_port_count v of
                    Inl e \<Rightarrow> Inl e
                  | Inr n \<Rightarrow> Inr (AList.update dst (VInt n) out)))"

definition and_then :: "py_error + 'a \<Rightarrow> ('a \<Rightarrow> py_error + 'b) \<Rightarrow> py_error + 'b" where
  \<comment> \<open>sequencing: the first error raised ends the function\<close>
  "and_then r f = (case r of Inl e \<Rightarrow> Inl e | Inr x \<Rightarrow> f x)"

definition augment_product_data :: "price_db \<Rightarrow> string \<Rightarrow> string \<Rightarrow> pdict \<Rightarrow> py_error + pdict" where
  "augment_product_data db category name pdata =
     (let out = attach_prices db category name pdata;
          out = derive_modem_group out;
          out = normalize_flag WIFI_AP out;
          out = normalize_flag ''5G support'' out;
          out = infer_5g out;
          out = unify_key ''SpeedFusion Throughput (no encryption)''
                  ''SpeedFusion VPN Throughput (No Encryption)'' out;
          out = unify_key SF_AES SF_VPN_AES out
      in and_then (derive_mbps ''Router Throughput'' ''Router Throughput (Mbps)'' out) (\<lambda>out.
         and_then (derive_mbps ''SpeedFusion Throughput (no encryption)'' ''SpeedFusion (Mbps)'' out) (\<lambda>out.
         and_then (derive_users out) (\<lambda>out.
         and_then (derive_ports ''Number of Ethernet WAN ports'' ''WAN Ports Max'' out) (\<lambda>out.
         derive_ports ''Number of Ethernet LAN ports'' ''LAN Ports Max'' out)))))"

section \<open>Request parameters: \<open>parse_filters\<close>\<close>

text \<open>
  \<open>request.args\<close> is a multi-dict: the (key, value) pairs of the query string in the order
  supplied. \<open>args.keys()\<close> gives each key once, in the order of its first pair;
  \<open>args.getlist(k)\<close> gives the values of \<open>k\<close> in the order supplied. The values are strings.
\<close>

type_synonym multidict = "(string \<times> string) list"

definition keys :: "multidict \<Rightarrow> string list" where
  "keys args = rev (remdups (rev (map fst args)))"

definition getlist :: "multidict \<Rightarrow> string \<Rightarrow> string list" where
  "getlist args k = map snd (filter (\<lambda>p. fst p = k) args)"

definition reserved_params :: "string list" where
  "reserved_params = [''category'', ''client_category'', ''short_description'',
     ''min_router_mbps'', ''min_speedfusion_mbps'', ''min_users'', ''sort'', ''embed'']"

definition parse_filters_step :: "multidict \<Rightarrow> string \<Rightarrow> filters \<Rightarrow> filters" where
  \<comment> \<open>the body of the loop over \<open>args.keys()\<close>\<close>
  "parse_filters_step args k fs =
     (if k \<in> set reserved_params then fs
      else (case getlist args k of [] \<Rightarrow> fs | v # vs \<Rightarrow> AList.update k [v] fs))"

definition parse_filters :: "multidict \<Rightarrow> filters" where
  "parse_filters args = fold (parse_filters_step args) (keys args) []"

section \<open>The filter evaluator: \<open>apply_filters\<close>\<close>

record numeric_filters =
  min_router_mbps :: "int option"
  min_speedfusion_mbps :: "int option"
  min_users :: "int option"

definition matches :: "filters \<Rightarrow> pdict \<Rightarrow> bool" where
  \<comment> \<open>the inner loop: \<open>ok\<close> stays true when every attribute's value is among the selected\<close>
  "matches fs data = list_all (\<lambda>(attr, vals). py_str (dict_get data attr (VStr [])) \<in> set vals) fs"

fun keep_min :: "string \<Rightarrow> int \<Rightarrow> product list \<Rightarrow> py_error + product list" where
  \<comment> \<open>\<open>[(n, d) for (n, d) in filtered if int(d.get(key, 0)) >= m]\<close>; \<open>int\<close> may raise\<close>
  "keep_min key m [] = Inr []"
| "keep_min key m ((n, d) # ps) =
     (case py_int (dict_get d key (VInt 0)) of
        Inl e \<Rightarrow> Inl e
      | Inr x \<Rightarrow> (case keep_min key m ps of
                   Inl e \<Rightarrow> Inl e
                 | Inr r \<Rightarrow> Inr (if m \<le> x then (n, d) # r else r)))"

definition keep_min_opt :: "string \<Rightarrow> int option \<Rightarrow> product list \<Rightarrow> py_error + product list" where
  \<comment> \<open>\<open>if m is not None: filtered = ...\<close>\<close>
  "keep_min_opt key m ps = (case m of None \<Rightarrow> Inr ps | Some b \<Rightarrow> keep_min key b ps)"

definition apply_filters ::
  "product list \<Rightarrow> filters \<Rightarrow> numeric_filters option \<Rightarrow> py_error + product list" where
  "apply_filters products fs numeric =
     (let filtered = (if fs = [] then products else filter (\<lambda>(name, data). matches fs data) products);
          min_router = (case numeric of None \<Rightarrow> None | Some nf \<Rightarrow> min_router_mbps nf);
          min_sf = (case numeric of None \<Rightarrow> None | Some nf \<Rightarrow> min_speedfusion_mbps nf);
          min_us = (case numeric of None \<Rightarrow> None | Some nf \<Rightarrow> min_users nf)
      in case keep_min_opt ''Router Throughput (Mbps)'' min_router filtered of
           Inl e \<Rightarrow> Inl e
         | Inr f1 \<Rightarrow> (case keep_min_opt ''SpeedFusion (Mbps)'' min_sf f1 of
                       Inl e \<Rightarrow> Inl e
                     | Inr f2 \<Rightarrow> keep_min_opt ''Users Max'' min_us f2))"

section \<open>The facet counter: \<open>count_with_toggled\<close> and \<open>count_with_included\<close>\<close>

text \<open>
  Both functions read the quick-pick group of the request, \<open>g.quick_pick_attrs\<close> (a set of
  attribute names, empty when none is registered); here it is the parameter \<open>qp\<close>, the
  attributes in the order the loop visits them. Each builds a hypothetical filter set \<open>f\<close>
  from a copy of the current one and returns \<open>len(apply_filters(products_all, f, ...))\<close>;
  \<open>toggled_filters\<close> and \<open>included_filters\<close> are that \<open>f\<close>.
\<close>

definition clear_quick_picks :: "string list \<Rightarrow> string \<Rightarrow> filters \<Rightarrow> filters" where
  \<comment> \<open>\<open>if attr in qp: for qp_attr in qp: if qp_attr != attr: f.pop(qp_attr, None)\<close>\<close>
  "clear_quick_picks qp attr f =
     (if attr \<in> set qp
      then fold (\<lambda>qp_attr f. if qp_attr \<noteq> attr then AList.delete qp_attr f else f) qp f
      else f)"

definition toggled_filters :: "string list \<Rightarrow> filters \<Rightarrow> string \<Rightarrow> string \<Rightarrow> filters" where
  "toggled_filters qp current attr sval =
     (let existing = dict_get current attr []
      in if sval \<in> set existing \<and> length existing = 1 then AList.delete attr current
         else clear_quick_picks qp attr (AList.update attr [sval] current))"

definition included_filters :: "string list \<Rightarrow> filters \<Rightarrow> string \<Rightarrow> string \<Rightarrow> filters" where
  "included_filters qp current attr sval =
     clear_quick_picks qp attr (AList.update attr [sval] current)"

definition result_len :: "py_error + 'a list \<Rightarrow> py_error + nat" where
  \<comment> \<open>\<open>len(...)\<close> of a call that may raise\<close>
  "result_len r = (case r of Inl e \<Rightarrow> Inl e | Inr xs \<Rightarrow> Inr (length xs))"

definition count_with_toggled ::
  "string list \<Rightarrow> product list \<Rightarrow> filters \<Rightarrow> string \<Rightarrow> string \<Rightarrow> numeric_filters option
     \<Rightarrow> py_error + nat" where
  "count_with_toggled qp products_all current attr sval numeric =
     result_len (apply_filters products_all (toggled_filters qp current attr sval) numeric)"

definition count_with_included ::
  "string list \<Rightarrow> product list \<Rightarrow> filters \<Rightarrow> string \<Rightarrow> string \<Rightarrow> numeric_filters option
     \<Rightarrow> py_error + nat" where
  "count_with_included qp products_all current attr sval numeric =
     result_len (apply_filters products_all (included_filters qp current attr sval) numeric)"

section \<open>The sorter: \<open>sort_products\<close>\<close>

text \<open>
  \<open>sorted(items, key=...)\<close> computes the key of every item, in list order, and then sorts
  stably by the keys; a key is a lower-cased name or a pair \<open>(-int(metric), name.lower())\<close>,
  and pairs compare lexicographically. A name is in a key as the list of its code points.
  \<^const>\<open>sort_key\<close> is a stable insertion sort.
\<close>

definition name_key :: "product \<Rightarrow> int list" where
  \<comment> \<open>\<open>lambda x: x[0].lower()\<close>\<close>
  "name_key x = code_points (lower (fst x))"

fun metric_keys :: "string \<Rightarrow> product list \<Rightarrow> py_error + (int \<times> int list) list" where
  \<comment> \<open>the keys \<open>(-int(x[1].get(field, 0)), x[0].lower())\<close> of all items; \<open>int\<close> may raise\<close>
  "metric_keys field [] = Inr []"
| "metric_keys field (x # xs) =
     (case py_int (dict_get (snd x) field (VInt 0)) of
        Inl e \<Rightarrow> Inl e
      | Inr v \<Rightarrow> (case metric_keys field xs of
                   Inl e \<Rightarrow> Inl e
                 | Inr ks \<Rightarrow> Inr ((- v, name_key x) # ks)))"

definition sorted_by_metric :: "string \<Rightarrow> product list \<Rightarrow> py_error + product list" where
  "sorted_by_metric field items =
     (case metric_keys field items of
        Inl e \<Rightarrow> Inl e
      | Inr ks \<Rightarrow> Inr (map snd (sort_key fst (zip ks items))))"

definition sort_products :: "product list \<Rightarrow> string option \<Rightarrow> py_error + product list" where
  \<comment> \<open>\<open>not key\<close> holds for \<open>None\<close> and for the empty string\<close>
  "sort_products items key =
     (case key of
        None \<Rightarrow> Inr (sort_key name_key items)
      | Some k \<Rightarrow>
          if k = [] then Inr (sort_key name_key items)
          else if k = ''router_desc'' then sorted_by_metric ''Router Throughput (Mbps)'' items
          else if k = ''speedfusion_desc'' then sorted_by_metric ''SpeedFusion (Mbps)'' items
          else if k = ''users_desc'' then sorted_by_metric ''Users Max'' items
          else if k = ''name_asc'' then Inr (sort_key name_key items)
          else Inr items)"

section \<open>The catalog index and the salience ranker\<close>

definition index_excluded :: "string list" where
  \<comment> \<open>the keys that \<open>build_attribute_index\<close> skips\<close>
  "index_excluded = [''Citations'', ''pdf_url'', ''short_description'',
     ''Router Throughput (Mbps)'', ''SpeedFusion (Mbps)'', ''Users Min'', ''Users Max'',
     ''WAN Ports Max'', ''LAN Ports Max'', PRICE_MATRIX_KEY]"

type_synonym attr_index = "(string \<times> string set) list"

definition index_add :: "string \<times> pyval \<Rightarrow> attr_index \<Rightarrow> attr_index" where
  \<comment> \<open>the body of the inner loop: \<open>s = idx.setdefault(k, set()); s.add(str(v))\<close>\<close>
  "index_add kv idx =
     (if fst kv \<in> set index_excluded then idx
      else AList.update (fst kv) (insert (py_str (snd kv)) (dict_get idx (fst kv) {})) idx)"

definition build_attribute_index :: "product list \<Rightarrow> attr_index" where
  "build_attribute_index products = fold (\<lambda>(name, pdata) idx. fold index_add pdata idx) products []"

definition salience_scores :: "attr_index \<Rightarrow> (string \<times> nat) list" where
  \<comment> \<open>the loop over \<open>idx.items()\<close>: an attribute with \<open>distinct <= 1\<close> is skipped\<close>
  "salience_scores idx =
     map (\<lambda>(attr, values). (attr, card values)) (filter (\<lambda>(attr, values). \<not> card values \<le> 1) idx)"

definition compute_salience :: "product list \<Rightarrow> string list" where
  \<comment> \<open>\<open>scores.sort(key=lambda x: (-x[1], x[0]))\<close>, then the attribute names\<close>
  "compute_salience products_all =
     map fst (sort_key (\<lambda>x. (- int (snd x), code_points (fst x)))
                (salience_scores (build_attribute_index products_all)))"

section \<open>Predicates used in the properties\<close>

definition single_valued :: "filters \<Rightarrow> bool" where
  \<comment> \<open>every attribute of the filter set has exactly one selected value\<close>
  "single_valued fs = list_all (\<lambda>(attr, vals). length vals = 1) fs"

definition distinct_count :: "attr_index \<Rightarrow> string \<Rightarrow> nat" where
  \<comment> \<open>the number of distinct values of an attribute in the index\<close>
  "distinct_count idx attr = card (dict_get idx attr {})"

definition ranked_before :: "attr_index \<Rightarrow> string \<Rightarrow> string \<Rightarrow> bool" where
  \<comment> \<open>more distinct values first; among equals, the smaller name by code points\<close>
  "ranked_before idx a b \<longleftrightarrow>
     distinct_count idx b < distinct_count idx a \<or>
     (distinct_count idx a = distinct_count idx b \<and> code_points a \<le> code_points b)"

definition ranked_before_caseless :: "attr_index \<Rightarrow> string \<Rightarrow> string \<Rightarrow> bool" where
  \<comment> \<open>the order of the spec: among equals, the smaller lower-cased name\<close>
  "ranked_before_caseless idx a b \<longleftrightarrow>
     distinct_count idx b < distinct_count idx a \<or>
     (distinct_count idx a = distinct_count idx b \<and>
      code_points (lower a) \<le> code_points (lower b))"





definition number_text :: "string \<Rightarrow> string" where
  \<comment> \<open>from the first digit or dot on: the digits, and after them a dot and the digits that
      follow it, when there is one\<close>
  "number_text s =
     (let u = dropWhile (\<lambda>c. \<not> isdigit c \<and> c \<noteq> CHR ''.'') s;
          ip = takeWhile isdigit u
      in case dropWhile isdigit u of
           [] \<Rightarrow> ip
         | c # t \<Rightarrow> if c = CHR ''.'' then ip @ CHR ''.'' # takeWhile isdigit t else ip)"

section \<open>Properties of filter sets\<close>

lemma set_update_subset: "set (AList.update k v al) \<subseteq> insert (k, v) (set al)"
  by (induction al) auto

lemma set_delete_subset: "set (AList.delete k al) \<subseteq> set al"
  by (induction al) auto

lemma single_valued_update: "single_valued fs \<Longrightarrow> single_valued (AList.update k [v] fs)"
  using set_update_subset [of k "[v]" fs] by (auto simp: single_valued_def list_all_iff)

lemma single_valued_delete: "single_valued fs \<Longrightarrow> single_valued (AList.delete k fs)"
  using set_delete_subset [of k fs] by (auto simp: single_valued_def list_all_iff)

subsection \<open>\<open>parse_filters\<close>\<close>

lemma single_valued_step: "single_valued fs \<Longrightarrow> single_valued (parse_filters_step args k fs)"
  by (simp add: parse_filters_step_def single_valued_update split: list.splits)

lemma single_valued_fold_step:
  "single_valued fs \<Longrightarrow> single_valued (fold (parse_filters_step args) ks fs)"
  by (induction ks arbitrary: fs) (simp_all add: single_valued_step)

lemma single_valued_parse_filters: "single_valued (parse_filters args)"
proof -
  have "single_valued []" by (simp add: single_valued_def)
  then show ?thesis unfolding parse_filters_def by (rule single_valued_fold_step)
qed

lemma map_of_fold_step:
  "map_of (fold (parse_filters_step args) ks fs) k =
     (if k \<in> set ks \<and> k \<notin> set reserved_params \<and> getlist args k \<noteq> []
      then Some [hd (getlist args k)] else map_of fs k)"
proof (induction ks arbitrary: fs)
  case Nil
  then show ?case by simp
next
  case (Cons a ks)
  have step: "map_of (parse_filters_step args a fs) k' =
     (if k' = a \<and> k' \<notin> set reserved_params \<and> getlist args k' \<noteq> []
      then Some [hd (getlist args k')] else map_of fs k')" for k'
    by (auto simp add: parse_filters_step_def update_conv' split: list.splits)
  show ?case
    by (auto simp add: Cons.IH step)
qed

lemma set_keys: "set (keys args) = fst ` set args"
  by (simp add: keys_def)

lemma getlist_nonempty: "getlist args k \<noteq> [] \<longleftrightarrow> k \<in> fst ` set args"
  by (auto simp add: getlist_def filter_empty_conv image_iff)

text \<open>
  Claim C8, as the spec has it: when a request supplies several values for an attribute, the
  filter set of \<open>parse_filters\<close> holds the value supplied last. The source stores
  \<open>[vals[0]]\<close>: for the query \<open>Series=MAX&Series=Balance\<close> the filter set holds \<open>MAX\<close>, not
  \<open>Balance\<close>.
\<close>

theorem parse_filters_last_wins_counterexample:
  "getlist [(''Series'', ''MAX''), (''Series'', ''Balance'')] ''Series'' = [''MAX'', ''Balance''] \<and>
   map_of (parse_filters [(''Series'', ''MAX''), (''Series'', ''Balance'')]) ''Series'' = Some [''MAX''] \<and>
   map_of (parse_filters [(''Series'', ''MAX''), (''Series'', ''Balance'')]) ''Series'' \<noteq> Some [''Balance'']"
  by (simp add: parse_filters_def parse_filters_step_def keys_def getlist_def reserved_params_def)

text \<open>
  Claim C8, amended: for every request and every attribute name \<open>k\<close> that is not a reserved
  parameter, when the request supplies the values \<open>v, vs\<close> for \<open>k\<close> (in this order), the
  filter set of \<open>parse_filters\<close> maps \<open>k\<close> to the single value \<open>v\<close> supplied first.
\<close>

theorem parse_filters_first_wins:
  assumes "k \<notin> set reserved_params" and "getlist args k = v # vs"
  shows "map_of (parse_filters args) k = Some [v]"
proof -
  from assms(2) have ne: "getlist args k \<noteq> []" by simp
  then have "k \<in> set (keys args)" by (simp add: set_keys getlist_nonempty)
  with assms ne show ?thesis
    by (simp add: parse_filters_def map_of_fold_step)
qed

theorem parse_filters_first_wins_witness:
  "''Series'' \<notin> set reserved_params \<and>
   getlist [(''Series'', ''MAX''), (''sort'', ''name_asc''), (''Series'', ''Balance'')] ''Series''
     = [''MAX'', ''Balance''] \<and>
   map_of (parse_filters [(''Series'', ''MAX''), (''sort'', ''name_asc''), (''Series'', ''Balance'')])
     ''Series'' = Some [''MAX'']"
proof -
  have h1: "''Series'' \<notin> set reserved_params" by (simp add: reserved_params_def)
  have h2: "getlist [(''Series'', ''MAX''), (''sort'', ''name_asc''), (''Series'', ''Balance'')] ''Series''
      = [''MAX'', ''Balance'']"
    by (simp add: getlist_def)
  from parse_filters_first_wins [OF h1 h2] h1 h2 show ?thesis by simp
qed

subsection \<open>The hypothetical filter sets\<close>

lemma clear_fold_filter:
  "fold (\<lambda>q f. if q \<noteq> attr then AList.delete q f else f) qs f
     = filter (\<lambda>p. fst p = attr \<or> fst p \<notin> set qs) f"
proof (induction qs arbitrary: f)
  case Nil
  then show ?case by simp
next
  case (Cons q qs)
  show ?case
    by (auto simp add: Cons.IH AList.delete_eq intro!: filter_cong)
qed

lemma clear_quick_picks_filter:
  "clear_quick_picks qp attr f =
     (if attr \<in> set qp then filter (\<lambda>p. fst p = attr \<or> fst p \<notin> set qp) f else f)"
  by (simp add: clear_quick_picks_def clear_fold_filter)

lemma map_of_clear:
  "map_of (clear_quick_picks qp attr f) k =
     (if attr \<in> set qp \<and> k \<in> set qp \<and> k \<noteq> attr then None else map_of f k)"
proof -
  have "map_of (filter (\<lambda>p. fst p = attr \<or> fst p \<notin> set qp) f) k =
        (if k = attr \<or> k \<notin> set qp then map_of f k else None)"
    by (induction f) auto
  then show ?thesis by (auto simp add: clear_quick_picks_filter)
qed

lemma clear_id:
  assumes "attr \<notin> set qp \<or> (\<forall>q \<in> set qp. q = attr \<or> map_of f q = None)"
  shows "clear_quick_picks qp attr f = f"
proof -
  have "filter (\<lambda>p. fst p = attr \<or> fst p \<notin> set qp) f = f"
    if "\<forall>q \<in> set qp. q = attr \<or> map_of f q = None"
    using that by (auto simp add: filter_id_conv map_of_eq_None_iff image_iff)
  with assms show ?thesis by (auto simp add: clear_quick_picks_filter)
qed

lemma single_valued_clear: "single_valued fs \<Longrightarrow> single_valued (clear_quick_picks qp attr fs)"
  by (auto simp: clear_quick_picks_filter single_valued_def list_all_iff)

lemma single_valued_toggled:
  "single_valued fs \<Longrightarrow> single_valued (toggled_filters qp fs attr v)"
  by (simp add: toggled_filters_def Let_def single_valued_clear single_valued_update
      single_valued_delete)

lemma single_valued_included:
  "single_valued fs \<Longrightarrow> single_valued (included_filters qp fs attr v)"
  by (simp add: included_filters_def single_valued_clear single_valued_update)

lemma set_clear_subset: "set (clear_quick_picks qp attr f) \<subseteq> set f"
  by (auto simp add: clear_quick_picks_filter)

lemma set_included_subset:
  "set (included_filters qp fs attr v) \<subseteq> insert (attr, [v]) (set fs)"
  using set_clear_subset [of qp attr "AList.update attr [v] fs"] set_update_subset [of attr "[v]" fs]
  unfolding included_filters_def by blast

lemma set_toggled_subset:
  "set (toggled_filters qp fs attr v) \<subseteq> insert (attr, [v]) (set fs)"
  using set_clear_subset [of qp attr "AList.update attr [v] fs"] set_update_subset [of attr "[v]" fs]
    set_delete_subset [of attr fs]
  unfolding toggled_filters_def Let_def by (auto split: if_splits)

text \<open>
  Claim C10: every filter set that \<open>parse_filters\<close> produces maps each attribute in it to
  exactly one selected value, and so does every hypothetical filter set that
  \<open>count_with_toggled\<close> or \<open>count_with_included\<close> builds from it, or from any filter set
  that does. No operation produces a selection of several values: every entry of a
  hypothetical filter set is an entry of the current filter set or the one-value selection of
  the attribute.
\<close>

theorem filters_single_valued:
  "single_valued (parse_filters args) \<and>
   single_valued (toggled_filters qp (parse_filters args) attr v) \<and>
   single_valued (included_filters qp (parse_filters args) attr v) \<and>
   (single_valued fs \<longrightarrow>
      single_valued (toggled_filters qp fs attr v) \<and>
      single_valued (included_filters qp fs attr v)) \<and>
   set (toggled_filters qp fs attr v) \<subseteq> insert (attr, [v]) (set fs) \<and>
   set (included_filters qp fs attr v) \<subseteq> insert (attr, [v]) (set fs)"
  by (simp add: single_valued_parse_filters single_valued_toggled single_valued_included
      set_toggled_subset set_included_subset)

theorem filters_single_valued_witness:
  "single_valued (parse_filters [(''Series'', ''MAX''), (''sort'', ''name_asc''), (''Series'', ''Balance'')]) \<and>
   single_valued (toggled_filters [''Modem Group'', ''5G support'']
      (parse_filters [(''Series'', ''MAX''), (''sort'', ''name_asc''), (''Series'', ''Balance'')])
      ''Modem Group'' ''Single'') \<and>
   single_valued [(''5G support'', [''Yes''])] \<and>
   single_valued (toggled_filters [''Modem Group'', ''5G support'']
      [(''5G support'', [''Yes''])] ''Modem Group'' ''Single'') \<and>
   single_valued (included_filters [''Modem Group'', ''5G support'']
      [(''5G support'', [''Yes''])] ''Modem Group'' ''Single'')"
proof -
  have h: "single_valued [(''5G support'', [''Yes''])]" by (simp add: single_valued_def)
  show ?thesis
    using h filters_single_valued
      [of "[(''Series'', ''MAX''), (''sort'', ''name_asc''), (''Series'', ''Balance'')]"
          "[''Modem Group'', ''5G support'']" "''Modem Group''" "''Single''"
          "[(''5G support'', [''Yes''])]"]
    by simp
qed

text \<open>
  Claim C3, as the spec has it: with the quick-pick group \<open>{A, B, C}\<close> registered and \<open>B\<close>
  selected, the hypothetical filter set of the toggle count for \<open>A = x\<close> has no selection for
  \<open>B\<close> or \<open>C\<close>. When \<open>x\<close> is already the sole selection of \<open>A\<close>, the toggle only removes
  \<open>A\<close> and the group is not cleared: \<open>B\<close> keeps its selection.
\<close>

theorem toggle_clears_group_counterexample:
  "map_of [(''Modem Group'', [''Single'']), (''5G support'', [''Yes''])] ''5G support'' = Some [''Yes''] \<and>
   toggled_filters [''Modem Group'', ''5G support'', ''Wi-Fi AP'']
      [(''Modem Group'', [''Single'']), (''5G support'', [''Yes''])] ''Modem Group'' ''Single''
     = [(''5G support'', [''Yes''])]"
  by (simp add: toggled_filters_def dict_get_def)

lemma toggled_filters_deselect:
  assumes "map_of current A = Some [x]"
  shows "toggled_filters qp current A x = AList.delete A current"
  using assms by (simp add: toggled_filters_def dict_get_def)

lemma toggled_filters_select:
  assumes "map_of current A \<noteq> Some [x]"
  shows "toggled_filters qp current A x = clear_quick_picks qp A (AList.update A [x] current)"
proof -
  have h: "\<not> (x \<in> set (dict_get current A []) \<and> length (dict_get current A []) = 1)"
    using assms by (auto simp add: dict_get_def length_Suc_conv split: option.splits)
  show ?thesis
    unfolding toggled_filters_def Let_def using h by (rule if_not_P)
qed

text \<open>
  Claim C3, amended: for every quick-pick group that holds \<open>A\<close> and another attribute \<open>B\<close>,
  and every current filter set in which \<open>x\<close> is not already the sole selection of \<open>A\<close>, the
  hypothetical filter set that \<open>count_with_toggled\<close> builds for \<open>A = x\<close> has no selection for
  \<open>B\<close> (so for none of the other attributes of the group), whatever was selected before.
  When \<open>x\<close> is already the sole selection of \<open>A\<close>, the hypothetical filter set is the
  current one with \<open>A\<close>'s constraint removed: every other attribute, in the group or not,
  keeps its selection.
\<close>

theorem toggle_clears_group:
  "(A \<in> set qp \<longrightarrow> B \<in> set qp \<longrightarrow> B \<noteq> A \<longrightarrow> map_of current A \<noteq> Some [x] \<longrightarrow>
      map_of (toggled_filters qp current A x) B = None) \<and>
   (map_of current A = Some [x] \<longrightarrow>
      toggled_filters qp current A x = AList.delete A current \<and>
      map_of (toggled_filters qp current A x) A = None \<and>
      (B \<noteq> A \<longrightarrow> map_of (toggled_filters qp current A x) B = map_of current B))"
proof (intro conjI impI)
  assume "A \<in> set qp" "B \<in> set qp" "B \<noteq> A" "map_of current A \<noteq> Some [x]"
  then show "map_of (toggled_filters qp current A x) B = None"
    by (simp add: toggled_filters_select map_of_clear)
next
  assume "map_of current A = Some [x]"
  then show "toggled_filters qp current A x = AList.delete A current"
    by (rule toggled_filters_deselect)
next
  assume "map_of current A = Some [x]"
  then show "map_of (toggled_filters qp current A x) A = None"
    by (simp add: toggled_filters_deselect delete_conv')
next
  assume "map_of current A = Some [x]" "B \<noteq> A"
  then show "map_of (toggled_filters qp current A x) B = map_of current B"
    by (simp add: toggled_filters_deselect)
qed

theorem toggle_clears_group_witness:
  "''Modem Group'' \<in> set [''Modem Group'', ''5G support'', ''Wi-Fi AP''] \<and>
   ''5G support'' \<in> set [''Modem Group'', ''5G support'', ''Wi-Fi AP''] \<and>
   ''5G support'' \<noteq> ''Modem Group'' \<and>
   map_of [(''Modem Group'', [''Multi'']), (''5G support'', [''Yes''])] ''Modem Group'' \<noteq> Some [''Single''] \<and>
   map_of [(''Modem Group'', [''Multi'']), (''5G support'', [''Yes''])] ''5G support'' = Some [''Yes''] \<and>
   map_of (toggled_filters [''Modem Group'', ''5G support'', ''Wi-Fi AP'']
      [(''Modem Group'', [''Multi'']), (''5G support'', [''Yes''])] ''Modem Group'' ''Single'')
     ''5G support'' = None \<and>
   map_of [(''Modem Group'', [''Multi'']), (''5G support'', [''Yes''])] ''Modem Group'' = Some [''Multi''] \<and>
   toggled_filters [''Modem Group'', ''5G support'', ''Wi-Fi AP'']
      [(''Modem Group'', [''Multi'']), (''5G support'', [''Yes''])] ''Modem Group'' ''Multi''
     = AList.delete ''Modem Group'' [(''Modem Group'', [''Multi'']), (''5G support'', [''Yes''])] \<and>
   map_of (toggled_filters [''Modem Group'', ''5G support'', ''Wi-Fi AP'']
      [(''Modem Group'', [''Multi'']), (''5G support'', [''Yes''])] ''Modem Group'' ''Multi'')
     ''Modem Group'' = None \<and>
   map_of (toggled_filters [''Modem Group'', ''5G support'', ''Wi-Fi AP'']
      [(''Modem Group'', [''Multi'']), (''5G support'', [''Yes''])] ''Modem Group'' ''Multi'')
     ''5G support'' = Some [''Yes'']"
proof -
  have h1: "''Modem Group'' \<in> set [''Modem Group'', ''5G support'', ''Wi-Fi AP'']" by simp
  have h2: "''5G support'' \<in> set [''Modem Group'', ''5G support'', ''Wi-Fi AP'']" by simp
  have h3: "''5G support'' \<noteq> ''Modem Group''" by simp
  have h4: "map_of [(''Modem Group'', [''Multi'']), (''5G support'', [''Yes''])] ''Modem Group''
      \<noteq> Some [''Single'']" by simp
  have h5: "map_of [(''Modem Group'', [''Multi'']), (''5G support'', [''Yes''])] ''Modem Group''
      = Some [''Multi'']" by simp
  have h6: "map_of [(''Modem Group'', [''Multi'']), (''5G support'', [''Yes''])] ''5G support''
      = Some [''Yes'']" by simp
  from toggle_clears_group
    [of "''Modem Group''" "[''Modem Group'', ''5G support'', ''Wi-Fi AP'']" "''5G support''"
        "[(''Modem Group'', [''Multi'']), (''5G support'', [''Yes''])]" "''Single''"]
    h1 h2 h3 h4
  have a: "map_of (toggled_filters [''Modem Group'', ''5G support'', ''Wi-Fi AP'']
      [(''Modem Group'', [''Multi'']), (''5G support'', [''Yes''])] ''Modem Group'' ''Single'')
     ''5G support'' = None"
    by blast
  from toggle_clears_group
    [of "''Modem Group''" "[''Modem Group'', ''5G support'', ''Wi-Fi AP'']" "''5G support''"
        "[(''Modem Group'', [''Multi'']), (''5G support'', [''Yes''])]" "''Multi''"]
    h3 h5
  have b: "toggled_filters [''Modem Group'', ''5G support'', ''Wi-Fi AP'']
      [(''Modem Group'', [''Multi'']), (''5G support'', [''Yes''])] ''Modem Group'' ''Multi''
     = AList.delete ''Modem Group'' [(''Modem Group'', [''Multi'']), (''5G support'', [''Yes''])]"
    and c: "map_of (toggled_filters [''Modem Group'', ''5G support'', ''Wi-Fi AP'']
      [(''Modem Group'', [''Multi'']), (''5G support'', [''Yes''])] ''Modem Group'' ''Multi'')
     ''Modem Group'' = None"
    and d: "map_of (toggled_filters [''Modem Group'', ''5G support'', ''Wi-Fi AP'']
      [(''Modem Group'', [''Multi'']), (''5G support'', [''Yes''])] ''Modem Group'' ''Multi'')
     ''5G support'' = map_of [(''Modem Group'', [''Multi'']), (''5G support'', [''Yes''])] ''5G support''"
    by blast+
  from d h6 have d': "map_of (toggled_filters [''Modem Group'', ''5G support'', ''Wi-Fi AP'']
      [(''Modem Group'', [''Multi'']), (''5G support'', [''Yes''])] ''Modem Group'' ''Multi'')
     ''5G support'' = Some [''Yes'']"
    by (rule trans)
  from h1 h2 h3 h4 h6 a h5 b c d' show ?thesis by (intro conjI)
qed

section \<open>Properties of the filter evaluator and the facet counter\<close>

lemma apply_filters_None:
  "apply_filters products fs None = Inr (filter (\<lambda>(name, data). matches fs data) products)"
proof -
  have "matches [] = (\<lambda>d. True)" by (simp add: matches_def fun_eq_iff)
  then show ?thesis by (simp add: apply_filters_def keep_min_opt_def)
qed

lemma matches_delete: "matches fs d \<Longrightarrow> matches (AList.delete a fs) d"
  using set_delete_subset [of a fs] by (auto simp add: matches_def list_all_iff)

lemma length_filter_mono:
  "(\<And>x. x \<in> set xs \<Longrightarrow> P x \<Longrightarrow> Q x) \<Longrightarrow> length (filter P xs) \<le> length (filter Q xs)"
  by (induction xs) auto

text \<open>
  Claim C2: for every product list and attribute filter set, \<open>apply_filters(P, F)\<close> returns a
  list no longer than \<open>P\<close>, and for every attribute \<open>a\<close> the call with \<open>a\<close>'s constraint removed
  from \<open>F\<close> returns a list at least as long.
\<close>

theorem apply_filters_monotone:
  "\<exists>R R'. apply_filters products fs None = Inr R
        \<and> apply_filters products (AList.delete a fs) None = Inr R'
        \<and> length R \<le> length products \<and> length R \<le> length R'"
  by (auto simp add: apply_filters_None matches_delete intro!: length_filter_mono)

text \<open>
  Claim C1, as the spec has it: \<open>count_with_included\<close> returns the size of
  \<open>apply_filters\<close> on the filter set \<open>F\<close> with \<open>attr\<close> set to \<open>[v]\<close> and all other entries
  kept. When \<open>attr\<close> is in the quick-pick group, the other attributes of the group are removed
  first: with \<open>5G support = Yes\<close> selected, the count for \<open>Modem Group = Single\<close> is 1, and
  the filter set that keeps \<open>5G support = Yes\<close> leaves no product.
\<close>

theorem count_with_included_counterexample:
  "count_with_included [''Modem Group'', ''5G support'']
      [(''BR1 Mini'', [(''Modem Group'', VStr ''Single''), (''5G support'', VStr ''No'')])]
      [(''5G support'', [''Yes''])] ''Modem Group'' ''Single'' None = Inr 1 \<and>
   result_len (apply_filters
      [(''BR1 Mini'', [(''Modem Group'', VStr ''Single''), (''5G support'', VStr ''No'')])]
      (AList.update ''Modem Group'' [''Single''] [(''5G support'', [''Yes''])]) None) = Inr 0"
  by (simp add: count_with_included_def included_filters_def clear_quick_picks_def result_len_def
      apply_filters_def keep_min_opt_def matches_def dict_get_def)

text \<open>
  Claim C1, amended: for every product list, filter set \<open>F\<close>, attribute, value and numeric
  filter set, when the attribute is not in the quick-pick group of the request, or no other
  attribute of that group has a selection in \<open>F\<close>, \<open>count_with_included\<close> returns exactly the
  size of the list of \<open>apply_filters\<close> on \<open>F\<close> with the attribute's selection set to the single
  value and all other entries kept (and raises when \<open>apply_filters\<close> raises).
\<close>

theorem count_with_included_eq:
  assumes "attr \<notin> set qp \<or> (\<forall>q \<in> set qp. q = attr \<or> map_of current q = None)"
  shows "count_with_included qp products current attr v numeric =
           result_len (apply_filters products (AList.update attr [v] current) numeric)"
proof -
  have "clear_quick_picks qp attr (AList.update attr [v] current) = AList.update attr [v] current"
    using assms by (intro clear_id) (auto simp add: update_conv')
  then show ?thesis by (simp add: count_with_included_def included_filters_def)
qed

theorem count_with_included_eq_witness:
  "''Series'' \<notin> set [''Modem Group'', ''5G support''] \<and>
   count_with_included [''Modem Group'', ''5G support'']
      [(''BR1 Mini'', [(''Series'', VStr ''MAX''), (''5G support'', VStr ''No'')]),
       (''Balance 20X'', [(''Series'', VStr ''Balance''), (''5G support'', VStr ''No'')])]
      [(''5G support'', [''No''])] ''Series'' ''MAX'' None = Inr 1"
proof -
  have h: "''Series'' \<notin> set [''Modem Group'', ''5G support'']"
    by simp
  have "result_len (apply_filters
      [(''BR1 Mini'', [(''Series'', VStr ''MAX''), (''5G support'', VStr ''No'')]),
       (''Balance 20X'', [(''Series'', VStr ''Balance''), (''5G support'', VStr ''No'')])]
      (AList.update ''Series'' [''MAX''] [(''5G support'', [''No''])]) None) = Inr 1"
    by (simp add: result_len_def apply_filters_def keep_min_opt_def matches_def dict_get_def)
  with h count_with_included_eq [OF disjI1, OF h] show ?thesis by simp
qed

text \<open>
  In general the count is that of the filter set with the attribute set and, when the
  attribute is in the quick-pick group, the other attributes of the group removed.
\<close>

lemma count_with_included_quick_pick:
  "count_with_included qp products current attr v numeric =
     result_len (apply_filters products
       (if attr \<in> set qp
        then filter (\<lambda>p. fst p = attr \<or> fst p \<notin> set qp) (AList.update attr [v] current)
        else AList.update attr [v] current) numeric)"
  by (simp add: count_with_included_def included_filters_def clear_quick_picks_filter)


subsection \<open>Relaxation under numeric filters\<close>

text \<open>
  With numeric filters \<open>apply_filters\<close> may raise (\<open>int()\<close> on a field that is no
  number). When the call with a constraint removed returns, the call with the constraint
  returns too, and its result is the part of the other that matches the whole filter set.
\<close>

lemma keep_min_filter:
  "keep_min key m xs = Inr r \<Longrightarrow> keep_min key m (filter Q xs) = Inr (filter Q r)"
proof (induction xs arbitrary: r)
  case Nil
  then show ?case by simp
next
  case (Cons x xs)
  obtain n d where x: "x = (n, d)" by (cases x)
  from Cons.prems obtain v r0 where v: "py_int (dict_get d key (VInt 0)) = Inr v"
    and r0: "keep_min key m xs = Inr r0" and r: "r = (if m \<le> v then (n, d) # r0 else r0)"
    by (auto simp add: x split: sum.splits)
  from Cons.IH [OF r0] v r show ?case by (simp add: x)
qed

lemma keep_min_length: "keep_min key m xs = Inr r \<Longrightarrow> length r \<le> length xs"
proof (induction xs arbitrary: r)
  case Nil
  then show ?case by simp
next
  case (Cons x xs)
  obtain n d where x: "x = (n, d)" by (cases x)
  from Cons.prems obtain v r0 where r0: "keep_min key m xs = Inr r0"
    and r: "r = (if m \<le> v then (n, d) # r0 else r0)"
    by (auto simp add: x split: sum.splits)
  from Cons.IH [OF r0] r show ?case by auto
qed

lemma keep_min_opt_filter:
  "keep_min_opt key m xs = Inr r \<Longrightarrow> keep_min_opt key m (filter Q xs) = Inr (filter Q r)"
  by (cases m) (auto simp add: keep_min_opt_def keep_min_filter)

lemma keep_min_opt_length: "keep_min_opt key m xs = Inr r \<Longrightarrow> length r \<le> length xs"
  by (cases m) (auto simp add: keep_min_opt_def keep_min_length)

lemma categorical_stage:
  "(if fs = [] then products else filter (\<lambda>(name, data). matches fs data) products)
     = filter (\<lambda>(name, data). matches fs data) products"
proof -
  have "matches [] = (\<lambda>d. True)" by (simp add: matches_def fun_eq_iff)
  then show ?thesis by simp
qed

lemma apply_filters_stages:
  "apply_filters products fs numeric = Inr R \<longleftrightarrow>
     (\<exists>f1 f2.
        keep_min_opt ''Router Throughput (Mbps)''
          (case numeric of None \<Rightarrow> None | Some nf \<Rightarrow> min_router_mbps nf)
          (filter (\<lambda>(name, data). matches fs data) products) = Inr f1 \<and>
        keep_min_opt ''SpeedFusion (Mbps)''
          (case numeric of None \<Rightarrow> None | Some nf \<Rightarrow> min_speedfusion_mbps nf) f1 = Inr f2 \<and>
        keep_min_opt ''Users Max''
          (case numeric of None \<Rightarrow> None | Some nf \<Rightarrow> min_users nf) f2 = Inr R)"
  unfolding apply_filters_def Let_def categorical_stage
  by (auto split: sum.splits)

lemma apply_filters_length:
  assumes "apply_filters products fs numeric = Inr R"
  shows "length R \<le> length products"
proof -
  from assms obtain f1 f2 where
    a: "keep_min_opt ''Router Throughput (Mbps)''
          (case numeric of None \<Rightarrow> None | Some nf \<Rightarrow> min_router_mbps nf)
          (filter (\<lambda>(name, data). matches fs data) products) = Inr f1" and
    b: "keep_min_opt ''SpeedFusion (Mbps)''
          (case numeric of None \<Rightarrow> None | Some nf \<Rightarrow> min_speedfusion_mbps nf) f1 = Inr f2" and
    c: "keep_min_opt ''Users Max''
          (case numeric of None \<Rightarrow> None | Some nf \<Rightarrow> min_users nf) f2 = Inr R"
    unfolding apply_filters_stages by blast
  have "length (filter (\<lambda>(name, data). matches fs data) products) \<le> length products" by simp
  with keep_min_opt_length [OF a] keep_min_opt_length [OF b] keep_min_opt_length [OF c]
  show ?thesis by linarith
qed

lemma apply_filters_relax:
  assumes "apply_filters products (AList.delete a fs) numeric = Inr R'"
  shows "apply_filters products fs numeric = Inr (filter (\<lambda>(name, data). matches fs data) R')"
proof -
  let ?Q = "\<lambda>(name, data). matches fs data"
  from assms obtain f1 f2 where
    a: "keep_min_opt ''Router Throughput (Mbps)''
          (case numeric of None \<Rightarrow> None | Some nf \<Rightarrow> min_router_mbps nf)
          (filter (\<lambda>(name, data). matches (AList.delete a fs) data) products) = Inr f1" and
    b: "keep_min_opt ''SpeedFusion (Mbps)''
          (case numeric of None \<Rightarrow> None | Some nf \<Rightarrow> min_speedfusion_mbps nf) f1 = Inr f2" and
    c: "keep_min_opt ''Users Max''
          (case numeric of None \<Rightarrow> None | Some nf \<Rightarrow> min_users nf) f2 = Inr R'"
    unfolding apply_filters_stages by blast
  have "filter ?Q (filter (\<lambda>(name, data). matches (AList.delete a fs) data) products) = filter ?Q products"
    by (auto simp add: matches_delete intro!: filter_cong)
  with keep_min_opt_filter [OF a, of ?Q]
  have a': "keep_min_opt ''Router Throughput (Mbps)''
          (case numeric of None \<Rightarrow> None | Some nf \<Rightarrow> min_router_mbps nf)
          (filter ?Q products) = Inr (filter ?Q f1)" by simp
  from a' keep_min_opt_filter [OF b, of ?Q] keep_min_opt_filter [OF c, of ?Q]
  show ?thesis unfolding apply_filters_stages by blast
qed

lemma apply_filters_monotone_numeric:
  assumes "apply_filters products (AList.delete a fs) numeric = Inr R'"
  shows "\<exists>R. apply_filters products fs numeric = Inr R \<and> length R \<le> length R'"
  using apply_filters_relax [OF assms] by simp

section \<open>Properties of the sorter\<close>

lemmas code_point_defs = code_points_def code_point_def nb_hyphen_def en_dash_def em_dash_def

text \<open>
  Claim C9: for every product list and every sort key that is not absent (\<open>None\<close> or the
  empty string, which the source treats alike) and is none of \<open>name_asc\<close>, \<open>router_desc\<close>,
  \<open>speedfusion_desc\<close>, \<open>users_desc\<close>, \<open>sort_products\<close> returns the input list unchanged
  and raises no error.
\<close>

theorem sort_products_unknown_key:
  assumes "k \<noteq> []"
    and "k \<notin> set [''name_asc'', ''router_desc'', ''speedfusion_desc'', ''users_desc'']"
  shows "sort_products items (Some k) = Inr items"
  using assms by (simp add: sort_products_def)

theorem sort_products_unknown_key_witness:
  "''price_asc'' \<noteq> [] \<and>
   ''price_asc'' \<notin> set [''name_asc'', ''router_desc'', ''speedfusion_desc'', ''users_desc''] \<and>
   sort_products [(''b'', []), (''a'', [])] (Some ''price_asc'') = Inr [(''b'', []), (''a'', [])]"
proof -
  have h1: "''price_asc'' \<noteq> []" by simp
  have h2: "''price_asc'' \<notin> set [''name_asc'', ''router_desc'', ''speedfusion_desc'', ''users_desc'']"
    by simp
  from sort_products_unknown_key [OF h1 h2] h1 h2 show ?thesis by simp
qed

subsection \<open>The order of the result\<close>









text \<open>
  Names are compared by their code points: a Latin-1 letter is below U+2011, which is below
  U+2013.
\<close>

lemma sort_dash_example:
  "sort_products [(''MAX'' @ [en_dash] @ ''BR1'', []), (''MAX'' @ [nb_hyphen] @ ''BR1'', []),
                  (''MAX'' @ [CHR 0xE9] @ ''BR1'', [])] None
     = Inr [(''MAX'' @ [CHR 0xE9] @ ''BR1'', []), (''MAX'' @ [nb_hyphen] @ ''BR1'', []),
            (''MAX'' @ [en_dash] @ ''BR1'', [])]"
  by code_simp


section \<open>Properties of the salience ranker\<close>

lemma distinct_fold_index_add:
  "distinct (map fst idx) \<Longrightarrow> distinct (map fst (fold index_add pdata idx))"
  by (induction pdata arbitrary: idx) (simp_all add: index_add_def distinct_update)

lemma distinct_fold_products:
  "distinct (map fst idx) \<Longrightarrow>
   distinct (map fst (fold (\<lambda>(name, pdata) idx. fold index_add pdata idx) products idx))"
  by (induction products arbitrary: idx) (simp_all add: distinct_fold_index_add split: prod.splits)

lemma distinct_build_attribute_index: "distinct (map fst (build_attribute_index products))"
  by (simp add: build_attribute_index_def distinct_fold_products)

lemma map_fst_salience_scores:
  "map fst (salience_scores idx) = map fst (filter (\<lambda>(attr, values). \<not> card values \<le> 1) idx)"
  by (simp add: salience_scores_def case_prod_unfold comp_def)

lemma distinct_salience_scores:
  "distinct (map fst idx) \<Longrightarrow> distinct (map fst (salience_scores idx))"
  by (simp add: map_fst_salience_scores distinct_map_filter)

lemma salience_scores_count:
  assumes "distinct (map fst idx)" and "x \<in> set (salience_scores idx)"
  shows "snd x = distinct_count idx (fst x) \<and> 1 < snd x"
proof -
  from assms(2) obtain vs where "(fst x, vs) \<in> set idx" and "snd x = card vs" and "1 < card vs"
    by (auto simp add: salience_scores_def)
  with assms(1) show ?thesis
    by (simp add: distinct_count_def dict_get_def)
qed

lemma set_salience_scores:
  assumes "distinct (map fst idx)"
  shows "fst ` set (salience_scores idx) = {a. a \<in> fst ` set idx \<and> 1 < distinct_count idx a}"
proof -
  have "fst ` set (salience_scores idx) = fst ` {p \<in> set idx. 1 < card (snd p)}"
    by (auto simp add: salience_scores_def image_iff case_prod_unfold not_le)
  moreover have "card (snd p) = distinct_count idx (fst p)" if "p \<in> set idx" for p
  proof -
    have "map_of idx (fst p) = Some (snd p)"
      using map_of_is_SomeI [OF assms, of "fst p" "snd p"] that by simp
    then show ?thesis by (simp add: distinct_count_def dict_get_def)
  qed
  ultimately show ?thesis by (auto simp add: image_iff)
qed

lemma index_example: "build_attribute_index [(''BR1'', [(''Series'', VStr ''MAX''), (''SIM Slots'', VStr ''1'')]),
                         (''B20'', [(''Series'', VStr ''Balance''), (''SIM Slots'', VStr ''2'')])]
   = [(''Series'', {''Balance'', ''MAX''}), (''SIM Slots'', {''2'', ''1''})]"
  by (simp add: build_attribute_index_def index_add_def index_excluded_def PRICE_MATRIX_KEY_def dict_get_def)

lemma salience_example: "compute_salience [(''BR1'', [(''Series'', VStr ''MAX''), (''SIM Slots'', VStr ''1'')]),
                         (''B20'', [(''Series'', VStr ''Balance''), (''SIM Slots'', VStr ''2'')])]
   = [''SIM Slots'', ''Series'']"
  by (simp add: compute_salience_def index_example salience_scores_def code_point_defs)

text \<open>
  Names are compared by their code points: U+2011 is below U+2013, and both are above
  every Latin-1 character.
\<close>

lemma dash_index_example:
  "build_attribute_index
     [(''BR1'', [(''Wi'' @ [en_dash] @ ''Fi AP'', VStr ''Yes''), (WIFI_AP, VStr ''Yes'')]),
      (''B20'', [(''Wi'' @ [en_dash] @ ''Fi AP'', VStr ''No''), (WIFI_AP, VStr ''No'')])]
   = [(''Wi'' @ [en_dash] @ ''Fi AP'', {''No'', ''Yes''}), (WIFI_AP, {''No'', ''Yes''})]"
  by (simp add: build_attribute_index_def index_add_def index_excluded_def PRICE_MATRIX_KEY_def
      dict_get_def WIFI_AP_def nb_hyphen_def en_dash_def)

lemma salience_dash_example:
  "compute_salience
     [(''BR1'', [(''Wi'' @ [en_dash] @ ''Fi AP'', VStr ''Yes''), (WIFI_AP, VStr ''Yes'')]),
      (''B20'', [(''Wi'' @ [en_dash] @ ''Fi AP'', VStr ''No''), (WIFI_AP, VStr ''No'')])]
   = [WIFI_AP, ''Wi'' @ [en_dash] @ ''Fi AP'']"
  unfolding compute_salience_def dash_index_example
  by (simp add: salience_scores_def code_point_defs WIFI_AP_def)

text \<open>
  Claim C7, as the spec has it: attributes with at most one distinct value are dropped, the
  others are ordered by distinct-value count descending, ties broken by the case-insensitive
  attribute name ascending. The source sorts by the key \<open>(-x[1], x[0])\<close>, the name as it is:
  \<open>SIM Slots\<close> and \<open>Series\<close> have two values each, and \<open>SIM Slots\<close> comes first
  (\<open>I\<close> is below \<open>e\<close>), though \<open>series\<close> is below \<open>sim slots\<close>.
\<close>

theorem compute_salience_caseless_counterexample:
  "compute_salience [(''BR1'', [(''Series'', VStr ''MAX''), (''SIM Slots'', VStr ''1'')]),
                     (''B20'', [(''Series'', VStr ''Balance''), (''SIM Slots'', VStr ''2'')])]
     = [''SIM Slots'', ''Series''] \<and>
   \<not> sorted_wrt (ranked_before_caseless (build_attribute_index
         [(''BR1'', [(''Series'', VStr ''MAX''), (''SIM Slots'', VStr ''1'')]),
          (''B20'', [(''Series'', VStr ''Balance''), (''SIM Slots'', VStr ''2'')])]))
       (compute_salience [(''BR1'', [(''Series'', VStr ''MAX''), (''SIM Slots'', VStr ''1'')]),
                          (''B20'', [(''Series'', VStr ''Balance''), (''SIM Slots'', VStr ''2'')])])"
  by (simp add: salience_example index_example ranked_before_caseless_def distinct_count_def
      dict_get_def lower_def lower_chr_def upper_letters_def lower_letters_def code_point_defs)

text \<open>
  Claim C7, amended: for every product list, \<open>compute_salience\<close> returns, without
  repetition, exactly the attributes of the index with more than one distinct value, ordered
  by distinct-value count descending, ties broken by the attribute name ascending in the
  order of the code points (case-sensitive).
\<close>

theorem compute_salience_ranking:
  "set (compute_salience products) =
     {a. a \<in> fst ` set (build_attribute_index products) \<and>
         1 < distinct_count (build_attribute_index products) a} \<and>
   distinct (compute_salience products) \<and>
   sorted_wrt (ranked_before (build_attribute_index products)) (compute_salience products)"
proof -
  define idx where "idx = build_attribute_index products"
  define key where "key = (\<lambda>x :: string \<times> nat. (- int (snd x), code_points (fst x)))"
  define srt where "srt = sort_key key (salience_scores idx)"
  have d: "distinct (map fst idx)" by (simp add: idx_def distinct_build_attribute_index)
  have cs: "compute_salience products = map fst srt"
    by (simp add: compute_salience_def srt_def key_def idx_def)
  have set_srt: "set srt = set (salience_scores idx)" by (simp add: srt_def)
  have "mset (map fst srt) = mset (map fst (salience_scores idx))"
    by (simp add: srt_def)
  then have dist: "distinct (map fst srt)"
    using distinct_salience_scores [OF d] by (metis mset_eq_imp_distinct_iff)
  have "sorted (map key srt)" by (simp add: srt_def)
  then have "sorted_wrt (\<lambda>x y. key x \<le> key y) srt" by (simp add: sorted_map)
  then have "sorted_wrt (\<lambda>x y. ranked_before idx (fst x) (fst y)) srt"
  proof (rule sorted_wrt_mono_rel [rotated])
    fix x y assume "x \<in> set srt" "y \<in> set srt" "key x \<le> key y"
    with salience_scores_count [OF d] set_srt
    have "snd x = distinct_count idx (fst x)" "snd y = distinct_count idx (fst y)" "key x \<le> key y"
      by auto
    then show "ranked_before idx (fst x) (fst y)"
      by (auto simp add: key_def ranked_before_def less_eq_prod_def)
  qed
  then have "sorted_wrt (ranked_before idx) (map fst srt)" by (simp add: sorted_wrt_map)
  moreover have "set (map fst srt) = {a. a \<in> fst ` set idx \<and> 1 < distinct_count idx a}"
    using set_salience_scores [OF d] set_srt by simp
  ultimately show ?thesis using dist by (simp add: cs idx_def)
qed



theorem compute_salience_ranking_witness:
  "set [''SIM Slots'', ''Series''] =
     {a. a \<in> fst ` set [(''Series'', {''Balance'', ''MAX''}), (''SIM Slots'', {''2'', ''1''})] \<and>
         1 < distinct_count [(''Series'', {''Balance'', ''MAX''}), (''SIM Slots'', {''2'', ''1''})] a} \<and>
   sorted_wrt (ranked_before [(''Series'', {''Balance'', ''MAX''}), (''SIM Slots'', {''2'', ''1''})])
     [''SIM Slots'', ''Series'']"
  using compute_salience_ranking
    [of "[(''BR1'', [(''Series'', VStr ''MAX''), (''SIM Slots'', VStr ''1'')]),
          (''B20'', [(''Series'', VStr ''Balance''), (''SIM Slots'', VStr ''2'')])]"]
  unfolding salience_example index_example by blast

section \<open>Properties of the normalizer\<close>

text \<open>
  Every block of \<open>augment_product_data\<close> assigns to one or two keys a value computed from a
  few keys. For each block: the keys it leaves alone (frame), that it changes nothing when
  run on its own result (idem), and that a record on which it changes nothing stays so when
  the keys it reads and writes are the same (fix).
\<close>

lemma update_fix_iff: "AList.update k v d = d \<longleftrightarrow> map_of d k = Some v"
proof
  assume "AList.update k v d = d"
  then have "map_of (AList.update k v d) k = map_of d k" by simp
  then show "map_of d k = Some v" by (simp add: update_conv')
next
  assume "map_of d k = Some v"
  then show "AList.update k v d = d" by (rule update_triv)
qed

lemma map_of_update_other: "k' \<noteq> k \<Longrightarrow> map_of (AList.update k v d) k' = map_of d k'"
  by (simp add: update_conv')

lemma map_of_update_same: "map_of (AList.update k v d) k = Some v"
  by (simp add: update_conv')

subsection \<open>The price matrix\<close>

lemma attach_prices_frame:
  "k \<noteq> PRICE_MATRIX_KEY \<Longrightarrow> map_of (attach_prices db c n d) k = map_of d k"
  by (simp add: attach_prices_def map_of_update_other split: option.splits)

lemma attach_prices_idem: "attach_prices db c n (attach_prices db c n d) = attach_prices db c n d"
  by (simp add: attach_prices_def split: option.splits)

lemma attach_prices_fix:
  assumes "attach_prices db c n d = d" and "map_of d' PRICE_MATRIX_KEY = map_of d PRICE_MATRIX_KEY"
  shows "attach_prices db c n d' = d'"
  using assms by (simp add: attach_prices_def update_fix_iff split: option.splits)

subsection \<open>The modem group\<close>

lemma derive_modem_group_frame:
  "k \<noteq> ''Modem Group'' \<Longrightarrow> map_of (derive_modem_group d) k = map_of d k"
  by (simp add: derive_modem_group_def Let_def map_of_update_other)

lemma derive_modem_group_fix:
  assumes "derive_modem_group d = d"
    and "map_of d' ''Number of Cellular Modems'' = map_of d ''Number of Cellular Modems''"
    and "map_of d' ''Modem Group'' = map_of d ''Modem Group''"
  shows "derive_modem_group d' = d'"
  using assms unfolding derive_modem_group_def Let_def update_fix_iff by simp

lemma derive_modem_group_idem: "derive_modem_group (derive_modem_group d) = derive_modem_group d"
proof -
  define count where "count = (case map_of d ''Number of Cellular Modems'' of
      None \<Rightarrow> 0 | Some modem_raw \<Rightarrow> parse_int_prefix (py_str modem_raw))"
  define mg where "mg = VStr (if count \<le> 0 then ''None'' else if count = 1 then ''Single'' else ''Multi'')"
  have e: "derive_modem_group x = AList.update ''Modem Group'' mg x"
    if "map_of x ''Number of Cellular Modems'' = map_of d ''Number of Cellular Modems''" for x
    using that by (simp add: derive_modem_group_def Let_def mg_def count_def)
  have "map_of (derive_modem_group d) ''Number of Cellular Modems'' = map_of d ''Number of Cellular Modems''"
    by (simp add: derive_modem_group_frame)
  from e [OF this] e [OF refl] show ?thesis by simp
qed

subsection \<open>The Yes/No flags\<close>

lemma lower_strip_Yes: "lower (strip ''Yes'') = ''yes''"
  by (simp add: lower_def strip_def isspace_def lower_chr_def upper_letters_def lower_letters_def)

lemma lower_strip_No: "lower (strip ''No'') = ''no''"
  by (simp add: lower_def strip_def isspace_def lower_chr_def upper_letters_def lower_letters_def)

lemma yes_no_Yes: "yes_no (VStr ''Yes'') = VStr ''Yes''"
  by (simp add: yes_no_def lower_strip_Yes startswith_def)

lemma yes_no_No: "yes_no (VStr ''No'') = VStr ''No''"
  by (simp add: yes_no_def lower_strip_No startswith_def)

lemma yes_no_idem: "yes_no (yes_no v) = yes_no v"
proof -
  consider "yes_no v = VStr ''Yes''" | "yes_no v = VStr ''No''" | "yes_no v = v"
    by atomize_elim (simp add: yes_no_def Let_def)
  then show ?thesis by cases (simp_all add: yes_no_Yes yes_no_No)
qed

lemma normalize_flag_frame: "k \<noteq> key \<Longrightarrow> map_of (normalize_flag key d) k = map_of d k"
  by (simp add: normalize_flag_def map_of_update_other split: option.splits)

lemma normalize_flag_idem: "normalize_flag key (normalize_flag key d) = normalize_flag key d"
  by (cases "map_of d key") (simp_all add: normalize_flag_def map_of_update_same yes_no_idem)

lemma normalize_flag_fix:
  assumes "normalize_flag key d = d" and "map_of d' key = map_of d key"
  shows "normalize_flag key d' = d'"
  using assms by (simp add: normalize_flag_def update_fix_iff split: option.splits)

subsection \<open>The 5G inference\<close>

lemma infer_5g_frame: "k \<noteq> ''5G support'' \<Longrightarrow> map_of (infer_5g d) k = map_of d k"
  by (simp add: infer_5g_def Let_def map_of_update_other)

lemma strip_No: "strip ''No'' \<noteq> []"
  by (simp add: strip_def isspace_def)

lemma infer_5g_fix:
  assumes "infer_5g d = d"
    and "map_of d' ''5G support'' = map_of d ''5G support''"
    and "map_of d' ''Number of Cellular Modems'' = map_of d ''Number of Cellular Modems''"
    and "map_of d' ''Cellular Modem Category options'' = map_of d ''Cellular Modem Category options''"
    and "map_of d' ''short_description'' = map_of d ''short_description''"
  shows "infer_5g d' = d'"
proof -
  define has where "has = list_ex (\<lambda>s. contains (lower s) ''5g'')
            [py_str (dict_get d ''Number of Cellular Modems'' (VStr [])),
             py_str (dict_get d ''Cellular Modem Category options'' (VStr [])),
             py_str (dict_get d ''short_description'' (VStr []))]"
  have e: "infer_5g x =
      (if has \<and> map_of x ''5G support'' \<noteq> Some (VStr ''Yes'') then AList.update ''5G support'' (VStr ''Yes'') x
       else if \<not> has \<and> (case map_of x ''5G support'' of None \<Rightarrow> True | Some c \<Rightarrow> strip (py_str c) = [])
       then AList.update ''5G support'' (VStr ''No'') x else x)"
    if "map_of x ''Number of Cellular Modems'' = map_of d ''Number of Cellular Modems''"
      and "map_of x ''Cellular Modem Category options'' = map_of d ''Cellular Modem Category options''"
      and "map_of x ''short_description'' = map_of d ''short_description''" for x
    using that unfolding infer_5g_def Let_def has_def dict_get_def by simp
  have "infer_5g d = d" by fact
  then have c: "(if has \<and> map_of d ''5G support'' \<noteq> Some (VStr ''Yes'') then map_of d ''5G support'' = Some (VStr ''Yes'')
       else if \<not> has \<and> (case map_of d ''5G support'' of None \<Rightarrow> True | Some c \<Rightarrow> strip (py_str c) = [])
       then map_of d ''5G support'' = Some (VStr ''No'') else True)"
    unfolding e [of d, OF refl refl refl] by (auto simp add: update_fix_iff split: if_splits)
  show ?thesis
    unfolding e [OF assms(3-5)] using c assms(2)
    by (auto simp add: update_fix_iff strip_No split: if_splits)
qed

lemma infer_5g_idem: "infer_5g (infer_5g d) = infer_5g d"
proof -
  define has where "has = list_ex (\<lambda>s. contains (lower s) ''5g'')
            [py_str (dict_get d ''Number of Cellular Modems'' (VStr [])),
             py_str (dict_get d ''Cellular Modem Category options'' (VStr [])),
             py_str (dict_get d ''short_description'' (VStr []))]"
  have e: "infer_5g x =
      (if has \<and> map_of x ''5G support'' \<noteq> Some (VStr ''Yes'') then AList.update ''5G support'' (VStr ''Yes'') x
       else if \<not> has \<and> (case map_of x ''5G support'' of None \<Rightarrow> True | Some c \<Rightarrow> strip (py_str c) = [])
       then AList.update ''5G support'' (VStr ''No'') x else x)"
    if "map_of x ''Number of Cellular Modems'' = map_of d ''Number of Cellular Modems''"
      and "map_of x ''Cellular Modem Category options'' = map_of d ''Cellular Modem Category options''"
      and "map_of x ''short_description'' = map_of d ''short_description''" for x
    using that unfolding infer_5g_def Let_def has_def dict_get_def by simp
  have f: "map_of (infer_5g d) ''Number of Cellular Modems'' = map_of d ''Number of Cellular Modems''"
      "map_of (infer_5g d) ''Cellular Modem Category options'' = map_of d ''Cellular Modem Category options''"
      "map_of (infer_5g d) ''short_description'' = map_of d ''short_description''"
    by (simp_all add: infer_5g_frame)
  show ?thesis
    unfolding e [of "infer_5g d", OF f]
    unfolding e [of d, OF refl refl refl]
    by (simp add: map_of_update_same strip_No)
qed

lemma normalize_infer_5g_fix:
  "normalize_flag ''5G support'' (infer_5g (normalize_flag ''5G support'' d))
     = infer_5g (normalize_flag ''5G support'' d)"
proof -
  define x where "x = normalize_flag ''5G support'' d"
  have nx: "normalize_flag ''5G support'' x = x" by (simp add: x_def normalize_flag_idem)
  consider "infer_5g x = AList.update ''5G support'' (VStr ''Yes'') x"
    | "infer_5g x = AList.update ''5G support'' (VStr ''No'') x"
    | "infer_5g x = x"
    by atomize_elim (simp add: infer_5g_def Let_def)
  then have "normalize_flag ''5G support'' (infer_5g x) = infer_5g x"
  proof cases
    case 1
    then show ?thesis by (simp add: normalize_flag_def map_of_update_same yes_no_Yes)
  next
    case 2
    then show ?thesis by (simp add: normalize_flag_def map_of_update_same yes_no_No)
  next
    case 3
    then show ?thesis by (simp add: nx)
  qed
  then show ?thesis by (simp add: x_def)
qed

subsection \<open>The SpeedFusion keys\<close>

lemma unify_key_frame: "k \<noteq> canonical \<Longrightarrow> map_of (unify_key canonical legacy d) k = map_of d k"
  by (simp add: unify_key_def map_of_update_other split: option.splits)

lemma unify_key_idem:
  "unify_key canonical legacy (unify_key canonical legacy d) = unify_key canonical legacy d"
  by (simp add: unify_key_def has_key_def map_of_update_same split: option.splits)

lemma unify_key_fix:
  assumes "unify_key canonical legacy d = d"
    and "map_of d' canonical = map_of d canonical" and "map_of d' legacy = map_of d legacy"
  shows "unify_key canonical legacy d' = d'"
  using assms by (auto simp add: unify_key_def has_key_def update_fix_iff split: option.splits if_splits)

subsection \<open>The numeric derivations\<close>

lemma derive_mbps_frame:
  "derive_mbps src dst d = Inr d' \<Longrightarrow> k \<noteq> dst \<Longrightarrow> map_of d' k = map_of d k"
  by (auto simp add: derive_mbps_def map_of_update_other split: option.splits sum.splits)

lemma derive_mbps_idem:
  assumes "derive_mbps src dst d = Inr d'" and "src \<noteq> dst"
  shows "derive_mbps src dst d' = Inr d'"
  using assms by (auto simp add: derive_mbps_def map_of_update_other split: option.splits sum.splits)

lemma derive_mbps_fix:
  assumes "derive_mbps src dst d = Inr d"
    and "map_of d' src = map_of d src" and "map_of d' dst = map_of d dst"
  shows "derive_mbps src dst d' = Inr d'"
  using assms by (auto simp add: derive_mbps_def update_fix_iff split: option.splits sum.splits)

lemma derive_ports_frame:
  "derive_ports src dst d = Inr d' \<Longrightarrow> k \<noteq> dst \<Longrightarrow> map_of d' k = map_of d k"
  by (auto simp add: derive_ports_def map_of_update_other split: option.splits sum.splits)

lemma derive_ports_idem:
  assumes "derive_ports src dst d = Inr d'" and "src \<noteq> dst"
  shows "derive_ports src dst d' = Inr d'"
  using assms by (auto simp add: derive_ports_def map_of_update_other split: option.splits sum.splits)

lemma derive_ports_fix:
  assumes "derive_ports src dst d = Inr d"
    and "map_of d' src = map_of d src" and "map_of d' dst = map_of d dst"
  shows "derive_ports src dst d' = Inr d'"
  using assms by (auto simp add: derive_ports_def update_fix_iff split: option.splits sum.splits)

lemma derive_users_frame:
  "derive_users d = Inr d' \<Longrightarrow> k \<noteq> ''Users Min'' \<Longrightarrow> k \<noteq> ''Users Max'' \<Longrightarrow> map_of d' k = map_of d k"
  by (auto simp add: derive_users_def map_of_update_other split: option.splits sum.splits prod.splits)

lemma derive_users_idem:
  assumes "derive_users d = Inr d'"
  shows "derive_users d' = Inr d'"
proof (cases "map_of d ''Number of Recommended Users''")
  case None
  with assms show ?thesis by (simp add: derive_users_def)
next
  case (Some v)
  with assms obtain lo hi where p: "parse_users_range v = Inr (lo, hi)"
    and d': "d' = AList.update ''Users Max'' (VInt hi) (AList.update ''Users Min'' (VInt lo) d)"
    by (auto simp add: derive_users_def split: sum.splits prod.splits)
  have "map_of d' ''Number of Recommended Users'' = Some v"
    by (simp add: d' Some map_of_update_other)
  moreover have "AList.update ''Users Min'' (VInt lo) d' = d'"
    by (simp add: update_fix_iff d' map_of_update_other map_of_update_same)
  moreover have "AList.update ''Users Max'' (VInt hi) d' = d'"
    by (simp add: update_fix_iff d' map_of_update_same)
  ultimately show ?thesis by (simp add: derive_users_def p)
qed

lemma derive_users_fix:
  assumes "derive_users d = Inr d"
    and "map_of d' ''Number of Recommended Users'' = map_of d ''Number of Recommended Users''"
    and "map_of d' ''Users Min'' = map_of d ''Users Min''"
    and "map_of d' ''Users Max'' = map_of d ''Users Max''"
  shows "derive_users d' = Inr d'"
proof (cases "map_of d ''Number of Recommended Users''")
  case None
  with assms show ?thesis by (simp add: derive_users_def)
next
  case (Some v)
  with assms(1) obtain lo hi where p: "parse_users_range v = Inr (lo, hi)"
    and d: "AList.update ''Users Max'' (VInt hi) (AList.update ''Users Min'' (VInt lo) d) = d"
    by (auto simp add: derive_users_def split: sum.splits prod.splits)
  from d have "map_of (AList.update ''Users Max'' (VInt hi) (AList.update ''Users Min'' (VInt lo) d)) k = map_of d k" for k
    by simp
  from this [of "''Users Min''"] this [of "''Users Max''"]
  have "map_of d ''Users Min'' = Some (VInt lo)" and "map_of d ''Users Max'' = Some (VInt hi)"
    by (simp_all add: update_conv')
  with assms(3,4) have "AList.update ''Users Min'' (VInt lo) d' = d'" and "AList.update ''Users Max'' (VInt hi) d' = d'"
    by (simp_all add: update_fix_iff)
  with Some assms(2) p show ?thesis by (simp add: derive_users_def)
qed

subsection \<open>The examples of the spec\<close>

lemma parse_int_prefix_example: "parse_int_prefix ''2 (5G)'' = 2"
  by code_simp

lemma modem_group_example:
  "derive_modem_group [(''Number of Cellular Modems'', VStr ''2 (5G)'')] =
     [(''Number of Cellular Modems'', VStr ''2 (5G)''), (''Modem Group'', VStr ''Multi'')]"
  by code_simp

lemma parse_users_range_examples:
  "parse_users_range (VStr (''1'' @ [en_dash] @ ''60'')) = Inr (1, 60)"
  "parse_users_range (VStr ''50'') = Inr (50, 50)"
  by code_simp+

lemma max_port_count_example: "max_port_count (VStr ''2 or 4'') = Inr 4"
  by code_simp


lemma price_db_example:
  "build_mock_price_db
     [(''Routers'', [(''MAX'' @ [en_dash] @ ''BR1'', []), (''MAX'' @ [nb_hyphen] @ ''BR1'', [])])]
   = [(''Routers'',
       [(''MAX'' @ [nb_hyphen] @ ''BR1'', \<lparr>essential = 800, business = 990, enterprise = 1140\<rparr>),
        (''MAX'' @ [en_dash] @ ''BR1'', \<lparr>essential = 825, business = 1015, enterprise = 1165\<rparr>)])]"
  by code_simp

subsection \<open>Idempotence\<close>

lemmas key_defs = WIFI_AP_def SF_AES_def SF_VPN_AES_def PRICE_MATRIX_KEY_def nb_hyphen_def

text \<open>
  Claim C4: for every price database, category, product name and raw record, when
  \<open>augment_product_data\<close> returns the enriched record \<open>r'\<close>, applying it to \<open>r'\<close> returns
  \<open>r'\<close> again: every field, so every derived field (modem group, 5G support, the unified
  SpeedFusion keys, the numeric derivations, the price matrix), is identical after the second
  application. (When the first application raises, there is no record to apply it to.)
\<close>

theorem augment_idempotent:
  assumes "augment_product_data db c n r = Inr r'"
  shows "augment_product_data db c n r' = Inr r'"
proof -
  define d1 where "d1 = attach_prices db c n r"
  define d2 where "d2 = derive_modem_group d1"
  define d3 where "d3 = normalize_flag WIFI_AP d2"
  define d5 where "d5 = infer_5g (normalize_flag ''5G support'' d3)"
  define d6 where "d6 = unify_key ''SpeedFusion Throughput (no encryption)''
                  ''SpeedFusion VPN Throughput (No Encryption)'' d5"
  define d7 where "d7 = unify_key SF_AES SF_VPN_AES d6"
  from assms obtain d8 d9 d10 d11 where
    s8: "derive_mbps ''Router Throughput'' ''Router Throughput (Mbps)'' d7 = Inr d8" and
    s9: "derive_mbps ''SpeedFusion Throughput (no encryption)'' ''SpeedFusion (Mbps)'' d8 = Inr d9" and
    s10: "derive_users d9 = Inr d10" and
    s11: "derive_ports ''Number of Ethernet WAN ports'' ''WAN Ports Max'' d10 = Inr d11" and
    s12: "derive_ports ''Number of Ethernet LAN ports'' ''LAN Ports Max'' d11 = Inr r'"
    unfolding augment_product_data_def Let_def and_then_def d1_def d2_def d3_def d5_def d6_def d7_def
    by (auto split: sum.splits)
  have f12: "map_of r' k = map_of d11 k" if "k \<noteq> ''LAN Ports Max''" for k
    using derive_ports_frame [OF s12 that] .
  have f11: "map_of r' k = map_of d10 k"
    if "k \<noteq> ''LAN Ports Max''" "k \<noteq> ''WAN Ports Max''" for k
    using f12 [OF that(1)] derive_ports_frame [OF s11 that(2)] by simp
  have f10: "map_of r' k = map_of d9 k"
    if "k \<noteq> ''LAN Ports Max''" "k \<noteq> ''WAN Ports Max''" "k \<noteq> ''Users Min''" "k \<noteq> ''Users Max''" for k
    using f11 [OF that(1,2)] derive_users_frame [OF s10 that(3,4)] by simp
  have f9: "map_of r' k = map_of d8 k"
    if "k \<noteq> ''LAN Ports Max''" "k \<noteq> ''WAN Ports Max''" "k \<noteq> ''Users Min''" "k \<noteq> ''Users Max''"
       "k \<noteq> ''SpeedFusion (Mbps)''" for k
    using f10 [OF that(1-4)] derive_mbps_frame [OF s9 that(5)] by simp
  have f8: "map_of r' k = map_of d7 k"
    if "k \<noteq> ''LAN Ports Max''" "k \<noteq> ''WAN Ports Max''" "k \<noteq> ''Users Min''" "k \<noteq> ''Users Max''"
       "k \<noteq> ''SpeedFusion (Mbps)''" "k \<noteq> ''Router Throughput (Mbps)''" for k
    using f9 [OF that(1-5)] derive_mbps_frame [OF s8 that(6)] by simp
  have f7: "map_of r' k = map_of d6 k"
    if "k \<noteq> ''LAN Ports Max''" "k \<noteq> ''WAN Ports Max''" "k \<noteq> ''Users Min''" "k \<noteq> ''Users Max''"
       "k \<noteq> ''SpeedFusion (Mbps)''" "k \<noteq> ''Router Throughput (Mbps)''" "k \<noteq> SF_AES" for k
    using f8 [OF that(1-6)] unfolding d7_def by (simp add: unify_key_frame [OF that(7)])
  have f6: "map_of r' k = map_of d5 k"
    if "k \<noteq> ''LAN Ports Max''" "k \<noteq> ''WAN Ports Max''" "k \<noteq> ''Users Min''" "k \<noteq> ''Users Max''"
       "k \<noteq> ''SpeedFusion (Mbps)''" "k \<noteq> ''Router Throughput (Mbps)''" "k \<noteq> SF_AES"
       "k \<noteq> ''SpeedFusion Throughput (no encryption)''" for k
    using f7 [OF that(1-7)] unfolding d6_def by (simp add: unify_key_frame [OF that(8)])
  have f5: "map_of r' k = map_of d3 k"
    if "k \<noteq> ''LAN Ports Max''" "k \<noteq> ''WAN Ports Max''" "k \<noteq> ''Users Min''" "k \<noteq> ''Users Max''"
       "k \<noteq> ''SpeedFusion (Mbps)''" "k \<noteq> ''Router Throughput (Mbps)''" "k \<noteq> SF_AES"
       "k \<noteq> ''SpeedFusion Throughput (no encryption)''" "k \<noteq> ''5G support''" for k
    using f6 [OF that(1-8)] unfolding d5_def
    by (simp add: infer_5g_frame [OF that(9)] normalize_flag_frame [OF that(9)])
  have f3: "map_of r' k = map_of d2 k"
    if "k \<noteq> ''LAN Ports Max''" "k \<noteq> ''WAN Ports Max''" "k \<noteq> ''Users Min''" "k \<noteq> ''Users Max''"
       "k \<noteq> ''SpeedFusion (Mbps)''" "k \<noteq> ''Router Throughput (Mbps)''" "k \<noteq> SF_AES"
       "k \<noteq> ''SpeedFusion Throughput (no encryption)''" "k \<noteq> ''5G support''" "k \<noteq> WIFI_AP" for k
    using f5 [OF that(1-9)] unfolding d3_def by (simp add: normalize_flag_frame [OF that(10)])
  have f2: "map_of r' k = map_of d1 k"
    if "k \<noteq> ''LAN Ports Max''" "k \<noteq> ''WAN Ports Max''" "k \<noteq> ''Users Min''" "k \<noteq> ''Users Max''"
       "k \<noteq> ''SpeedFusion (Mbps)''" "k \<noteq> ''Router Throughput (Mbps)''" "k \<noteq> SF_AES"
       "k \<noteq> ''SpeedFusion Throughput (no encryption)''" "k \<noteq> ''5G support''" "k \<noteq> WIFI_AP"
       "k \<noteq> ''Modem Group''" for k
    using f3 [OF that(1-10)] unfolding d2_def by (simp add: derive_modem_group_frame [OF that(11)])
  have p1: "attach_prices db c n r' = r'"
    by (rule attach_prices_fix [of _ _ _ d1]) (simp_all add: d1_def attach_prices_idem f2 [unfolded d1_def] key_defs)
  have p2: "derive_modem_group r' = r'"
    by (rule derive_modem_group_fix [of d2]) (simp_all add: d2_def derive_modem_group_idem f3 [unfolded d2_def] key_defs)
  have p3: "normalize_flag WIFI_AP r' = r'"
    by (rule normalize_flag_fix [of _ d3]) (simp_all add: d3_def normalize_flag_idem f5 [unfolded d3_def] key_defs)
  have p4: "normalize_flag ''5G support'' r' = r'"
    by (rule normalize_flag_fix [of _ d5]) (simp_all add: d5_def normalize_infer_5g_fix f6 [unfolded d5_def] key_defs)
  have p5: "infer_5g r' = r'"
    by (rule infer_5g_fix [of d5]) (simp_all add: d5_def infer_5g_idem f6 [unfolded d5_def] key_defs)
  have p6: "unify_key ''SpeedFusion Throughput (no encryption)''
                  ''SpeedFusion VPN Throughput (No Encryption)'' r' = r'"
    by (rule unify_key_fix [of _ _ d6]) (simp_all add: d6_def unify_key_idem f7 [unfolded d6_def] key_defs)
  have p7: "unify_key SF_AES SF_VPN_AES r' = r'"
    by (rule unify_key_fix [of _ _ d7]) (simp_all add: d7_def unify_key_idem f8 [unfolded d7_def] key_defs)
  have p8: "derive_mbps ''Router Throughput'' ''Router Throughput (Mbps)'' r' = Inr r'"
    by (rule derive_mbps_fix [of _ _ d8]) (simp_all add: derive_mbps_idem [OF s8] f9)
  have p9: "derive_mbps ''SpeedFusion Throughput (no encryption)'' ''SpeedFusion (Mbps)'' r' = Inr r'"
    by (rule derive_mbps_fix [of _ _ d9]) (simp_all add: derive_mbps_idem [OF s9] f10)
  have p10: "derive_users r' = Inr r'"
    by (rule derive_users_fix [of d10]) (simp_all add: derive_users_idem [OF s10] f11)
  have p11: "derive_ports ''Number of Ethernet WAN ports'' ''WAN Ports Max'' r' = Inr r'"
    by (rule derive_ports_fix [of _ _ d11]) (simp_all add: derive_ports_idem [OF s11] f12)
  have p12: "derive_ports ''Number of Ethernet LAN ports'' ''LAN Ports Max'' r' = Inr r'"
    by (rule derive_ports_idem [OF s12]) simp
  show ?thesis
    unfolding augment_product_data_def Let_def and_then_def
    by (simp add: p1 p2 p3 p4 p5 p6 p7 p8 p9 p10 p11 p12)
qed

theorem augment_idempotent_witness:
  "augment_product_data
     [(''Mobile Routers'', [(''MAX BR1'', \<lparr>essential = 800, business = 990, enterprise = 1140\<rparr>)])]
     ''Mobile Routers'' ''MAX BR1''
     [(''Number of Cellular Modems'', VStr ''2 (5G)''),
      (''Router Throughput'', VStr ''2.5 Gbps''),
      (WIFI_AP, VStr ''yes''),
      (''SpeedFusion VPN Throughput (No Encryption)'', VStr ''400 Mbps''),
      (''Number of Recommended Users'', VStr (''1'' @ [en_dash] @ ''60'')),
      (''Number of Ethernet WAN ports'', VStr ''2 or 4'')]
   = Inr [(''Number of Cellular Modems'', VStr ''2 (5G)''),
      (''Router Throughput'', VStr ''2.5 Gbps''),
      (WIFI_AP, VStr ''Yes''),
      (''SpeedFusion VPN Throughput (No Encryption)'', VStr ''400 Mbps''),
      (''Number of Recommended Users'', VStr (''1'' @ [en_dash] @ ''60'')),
      (''Number of Ethernet WAN ports'', VStr ''2 or 4''),
      (PRICE_MATRIX_KEY, VPrices \<lparr>essential = 800, business = 990, enterprise = 1140\<rparr>),
      (''Modem Group'', VStr ''Multi''),
      (''5G support'', VStr ''Yes''),
      (''SpeedFusion Throughput (no encryption)'', VStr ''400 Mbps''),
      (''Router Throughput (Mbps)'', VInt 2500),
      (''SpeedFusion (Mbps)'', VInt 400),
      (''Users Min'', VInt 1),
      (''Users Max'', VInt 60),
      (''WAN Ports Max'', VInt 4)] \<and>
   augment_product_data
     [(''Mobile Routers'', [(''MAX BR1'', \<lparr>essential = 800, business = 990, enterprise = 1140\<rparr>)])]
     ''Mobile Routers'' ''MAX BR1''
     [(''Number of Cellular Modems'', VStr ''2 (5G)''),
      (''Router Throughput'', VStr ''2.5 Gbps''),
      (WIFI_AP, VStr ''Yes''),
      (''SpeedFusion VPN Throughput (No Encryption)'', VStr ''400 Mbps''),
      (''Number of Recommended Users'', VStr (''1'' @ [en_dash] @ ''60'')),
      (''Number of Ethernet WAN ports'', VStr ''2 or 4''),
      (PRICE_MATRIX_KEY, VPrices \<lparr>essential = 800, business = 990, enterprise = 1140\<rparr>),
      (''Modem Group'', VStr ''Multi''),
      (''5G support'', VStr ''Yes''),
      (''SpeedFusion Throughput (no encryption)'', VStr ''400 Mbps''),
      (''Router Throughput (Mbps)'', VInt 2500),
      (''SpeedFusion (Mbps)'', VInt 400),
      (''Users Min'', VInt 1),
      (''Users Max'', VInt 60),
      (''WAN Ports Max'', VInt 4)]
   = Inr [(''Number of Cellular Modems'', VStr ''2 (5G)''),
      (''Router Throughput'', VStr ''2.5 Gbps''),
      (WIFI_AP, VStr ''Yes''),
      (''SpeedFusion VPN Throughput (No Encryption)'', VStr ''400 Mbps''),
      (''Number of Recommended Users'', VStr (''1'' @ [en_dash] @ ''60'')),
      (''Number of Ethernet WAN ports'', VStr ''2 or 4''),
      (PRICE_MATRIX_KEY, VPrices \<lparr>essential = 800, business = 990, enterprise = 1140\<rparr>),
      (''Modem Group'', VStr ''Multi''),
      (''5G support'', VStr ''Yes''),
      (''SpeedFusion Throughput (no encryption)'', VStr ''400 Mbps''),
      (''Router Throughput (Mbps)'', VInt 2500),
      (''SpeedFusion (Mbps)'', VInt 400),
      (''Users Min'', VInt 1),
      (''Users Max'', VInt 60),
      (''WAN Ports Max'', VInt 4)]"
proof -
  have e: "augment_product_data
     [(''Mobile Routers'', [(''MAX BR1'', \<lparr>essential = 800, business = 990, enterprise = 1140\<rparr>)])]
     ''Mobile Routers'' ''MAX BR1''
     [(''Number of Cellular Modems'', VStr ''2 (5G)''),
      (''Router Throughput'', VStr ''2.5 Gbps''),
      (WIFI_AP, VStr ''yes''),
      (''SpeedFusion VPN Throughput (No Encryption)'', VStr ''400 Mbps''),
      (''Number of Recommended Users'', VStr (''1'' @ [en_dash] @ ''60'')),
      (''Number of Ethernet WAN ports'', VStr ''2 or 4'')]
   = Inr [(''Number of Cellular Modems'', VStr ''2 (5G)''),
      (''Router Throughput'', VStr ''2.5 Gbps''),
      (WIFI_AP, VStr ''Yes''),
      (''SpeedFusion VPN Throughput (No Encryption)'', VStr ''400 Mbps''),
      (''Number of Recommended Users'', VStr (''1'' @ [en_dash] @ ''60'')),
      (''Number of Ethernet WAN ports'', VStr ''2 or 4''),
      (PRICE_MATRIX_KEY, VPrices \<lparr>essential = 800, business = 990, enterprise = 1140\<rparr>),
      (''Modem Group'', VStr ''Multi''),
      (''5G support'', VStr ''Yes''),
      (''SpeedFusion Throughput (no encryption)'', VStr ''400 Mbps''),
      (''Router Throughput (Mbps)'', VInt 2500),
      (''SpeedFusion (Mbps)'', VInt 400),
      (''Users Min'', VInt 1),
      (''Users Max'', VInt 60),
      (''WAN Ports Max'', VInt 4)]"
    by code_simp
  from e augment_idempotent [OF e] show ?thesis by (rule conjI)
qed

subsection \<open>Throughput parsing\<close>

text \<open>
  The scan of \<open>_parse_mbps\<close> returns the text \<open>number_text\<close> describes; so the function
  is, on a string that is not empty:
\<close>

lemma dot_no_digit: "\<not> isdigit (CHR ''.'')"
  by (simp add: isdigit_def isdecimal_def ascii_digits_def)

lemma mbps_scan_after_dot:
  "num \<noteq> [] \<Longrightarrow> mbps_scan num True s = num @ takeWhile isdigit s"
  by (induction s arbitrary: num) simp_all

lemma mbps_scan_in_number:
  "num \<noteq> [] \<Longrightarrow> mbps_scan num False s =
     num @ takeWhile isdigit s @
       (case dropWhile isdigit s of
          [] \<Rightarrow> []
        | c # t \<Rightarrow> if c = CHR ''.'' then CHR ''.'' # takeWhile isdigit t else [])"
  by (induction s arbitrary: num) (simp_all add: mbps_scan_after_dot dot_no_digit)

lemma number_text_digit:
  "isdigit c \<Longrightarrow> number_text (c # s) =
     c # takeWhile isdigit s @
       (case dropWhile isdigit s of
          [] \<Rightarrow> []
        | c # t \<Rightarrow> if c = CHR ''.'' then CHR ''.'' # takeWhile isdigit t else [])"
  by (cases "dropWhile isdigit s") (simp_all add: number_text_def Let_def del: dropWhile_eq_Nil_conv)

lemma number_text_dot: "number_text (CHR ''.'' # s) = CHR ''.'' # takeWhile isdigit s"
  by (simp add: number_text_def Let_def dot_no_digit)

lemma number_text_skip:
  "\<not> isdigit c \<Longrightarrow> c \<noteq> CHR ''.'' \<Longrightarrow> number_text (c # s) = number_text s"
  by (simp add: number_text_def Let_def)

lemma mbps_scan_number_text: "mbps_scan [] False s = number_text s"
proof (induction s)
  case Nil
  show ?case by (simp add: number_text_def)
next
  case (Cons c s)
  consider "isdigit c" | "c = CHR ''.''" | "\<not> isdigit c" "c \<noteq> CHR ''.''" by blast
  then show ?case
  proof cases
    case 1
    then show ?thesis
      by (simp add: mbps_scan_in_number number_text_digit)
  next
    case 2
    then show ?thesis
      by (simp add: mbps_scan_after_dot number_text_dot dot_no_digit)
  next
    case 3
    with Cons.IH show ?thesis
      by (simp add: number_text_skip)
  qed
qed

lemma py_float_Nil: "py_float [] = Inl ValueError"
  by (simp add: py_float_def)

lemma parse_mbps_general:
  "parse_mbps (VStr s) =
     (if s = [] then Inr 0
      else py_round (float_times
             (case py_float (number_text (strip (replace_chr nbsp CHR '' '' s))) of
                Inr x \<Rightarrow> x | Inl e \<Rightarrow> Finite 0 0)
             (if gigabit_marker (lower (strip (replace_chr nbsp CHR '' '' s))) then 1000 else 1)))"
  by (simp add: parse_mbps_def Let_def strip_nbsp_def mbps_scan_number_text py_float_Nil)


lemma parse_mbps_empty: "parse_mbps (VStr []) = Inr 0"
  by (simp add: parse_mbps_def)

lemma parse_mbps_gigabit_example: "parse_mbps (VStr ''2.5 Gbps'') = Inr 2500"
  by code_simp

lemma parse_mbps_megabit_example: "parse_mbps (VStr ''300 Mbps'') = Inr 300"
  by code_simp

lemma parse_mbps_no_number_example: "parse_mbps (VStr ''n/a'') = Inr 0"
  by code_simp

lemma parse_mbps_marker_anywhere_example: "parse_mbps (VStr ''Strong 300 Mbps'') = Inr 300000"
  by code_simp

lemma parse_mbps_overflow_example:
  "parse_mbps (VStr (replicate 310 (CHR ''9'') @ '' Mbps'')) = Inl OverflowError"
  by code_simp

text \<open>
  Claim C6: for every input string, \<open>_parse_mbps\<close> extracts the first decimal number,
  multiplies it by 1000 exactly when the unit text has a gigabit marker, takes it as megabits
  otherwise, and returns 0 for empty or unparseable input; \<open>2.5 Gbps\<close> parses to 2500. The
  examples above hold, the last one with a marker (\<open>g\<close> and a space) that is no unit. The
  scan takes a dot as the start of the number also when no digit follows it: in
  \<open>Max. 2.5 Gbps\<close> it stops after the dot of \<open>Max.\<close>, \<open>float(".")\<close> fails, and the
  result is 0, not 2500.
\<close>

theorem parse_mbps_leading_dot:
  "mbps_scan [] False ''Max. 2.5 Gbps'' = ''.'' \<and> parse_mbps (VStr ''Max. 2.5 Gbps'') = Inr 0"
  by code_simp

end
